theory Spec2Isabelle
  imports Complex_Main "HOL-Library.AList"
begin

section \<open>The simulation tracker of MediaRecommender\<close>

text \<open>
  A shallow embedding of \<^verbatim>\<open>backend/app/services/simulation.py\<close> (class
  \<^verbatim>\<open>SimulationService\<close>) and of the request handlers of
  \<^verbatim>\<open>backend/app/api/simulation.py\<close> and
  \<^verbatim>\<open>backend/app/api/interactions.py\<close> that call it or touch its ledger rows.

  Conventions of the model:
  \<^item> a \<^verbatim>\<open>datetime\<close> is an integer number of microseconds (the resolution of Python's
    \<^verbatim>\<open>datetime\<close>); every call of \<^verbatim>\<open>datetime.utcnow()\<close> is an explicit argument;
  \<^item> a Python \<^verbatim>\<open>float\<close> is an IEEE 754 binary64 number, kept as the rational it denotes;
    every float operation rounds its exact result to the nearest number with a 53-bit
    significand, ties to even (\<open>double\<close>);
  \<^item> every call into \<^verbatim>\<open>random\<close> takes its raw draw as an explicit argument;
  \<^item> an exception is a value \<open>Inl e\<close>; every operation returns its result together with the
    state it leaves behind, because a Python exception does not undo the writes made before it;
  \<^item> a Python \<^verbatim>\<open>dict\<close> whose iteration order matters and a table keyed by its primary key
    are association lists with \<open>AList.update\<close> (overwrite in place, else append) and
    \<open>AList.delete\<close>.
\<close>

subsection \<open>Python helpers\<close>

type_synonym datetime = int

datatype error =
    ValueError string
  | KeyError string
  | ZeroDivisionError
  | UnboundLocalError string
  | NameError string

text \<open>Round half to even, to an integer.\<close>

definition round_half_even :: "rat \<Rightarrow> int" where
  "round_half_even y =
     (let f = \<lfloor>y\<rfloor>; r = y - of_int f
      in if r < 1 / 2 then f
         else if 1 / 2 < r then f + 1
         else if even f then f else f + 1)"

text \<open>\<^verbatim>\<open>int.bit_length()\<close> of a positive integer.\<close>

function bit_length :: "int \<Rightarrow> int" where
  "bit_length n = (if n \<le> 0 then 0 else 1 + bit_length (n div 2))"
  by pat_completeness auto
termination
  by (relation "measure nat") auto

declare bit_length.simps [simp del]

text \<open>The largest \<open>e\<close> with \<open>2^e \<le> x\<close>, for a positive rational: the bit lengths of numerator
  and denominator give it up to one, and one comparison decides.\<close>

definition floor_log2 :: "rat \<Rightarrow> int" where
  "floor_log2 x =
     (case quotient_of x of
        (p, q) \<Rightarrow>
          (let e0 = bit_length p - bit_length q
           in if 2 powi e0 \<le> x then e0 else e0 - 1))"

text \<open>
  The binary64 number nearest to \<open>x\<close>: with \<open>s = 2^e\<close> the weight of the last of 53
  significant bits (\<open>2^52 \<le> |x| / s < 2^53\<close>), the magnitude is rounded to a multiple of \<open>s\<close>,
  ties to even. The exponent range of binary64 is not modelled: the floats of this program
  are quotients and products of small integers and of clock differences of at most 10^4
  years in microseconds, far from overflow and from the subnormal numbers.
\<close>

definition float_exponent :: "rat \<Rightarrow> int" where
  "float_exponent x = floor_log2 \<bar>x\<bar> - 52"

definition double :: "rat \<Rightarrow> rat" where
  "double x =
     (if x = 0 then 0
      else (let s = 2 powi float_exponent x
            in sgn x * (of_int (round_half_even (\<bar>x\<bar> / s)) * s)))"

text \<open>Float arithmetic: the exact result, rounded once. \<open>float_of_int\<close> is the conversion of
  an \<^verbatim>\<open>int\<close> operand of a mixed operation, \<open>int_truediv\<close> is \<^verbatim>\<open>/\<close> on two \<^verbatim>\<open>int\<close>s, which
  Python rounds correctly.\<close>

definition float_of_int :: "int \<Rightarrow> rat" where
  "float_of_int i = double (of_int i)"

definition float_add :: "rat \<Rightarrow> rat \<Rightarrow> rat" where
  "float_add a b = double (a + b)"

definition float_mul :: "rat \<Rightarrow> rat \<Rightarrow> rat" where
  "float_mul a b = double (a * b)"

definition float_div :: "rat \<Rightarrow> rat \<Rightarrow> rat" where
  "float_div a b = double (a / b)"

definition int_truediv :: "int \<Rightarrow> int \<Rightarrow> rat" where
  "int_truediv a b = double (of_int a / of_int b)"

text \<open>\<^verbatim>\<open>timedelta.total_seconds()\<close>: the microseconds divided by \<open>10^6\<close>, as a float.\<close>

definition total_seconds :: "int \<Rightarrow> rat" where
  "total_seconds d = int_truediv d 1000000"

text \<open>\<^verbatim>\<open>int(x)\<close> on a float truncates towards zero.\<close>

definition py_int :: "rat \<Rightarrow> int" where
  "py_int x = (if 0 \<le> x then \<lfloor>x\<rfloor> else - \<lfloor>- x\<rfloor>)"

text \<open>\<^verbatim>\<open>round(x, 2)\<close> on a float: the exact value of \<open>x\<close> is rounded to two decimals, an exact
  tie going to the even neighbour, and the decimal result is converted back to a float.\<close>

definition py_round2 :: "rat \<Rightarrow> rat" where
  "py_round2 x = double (of_int (round_half_even (x * 100)) / 100)"

text \<open>\<^verbatim>\<open>str(n)\<close> for an integer, used by the f-strings.\<close>

fun str_nat :: "nat \<Rightarrow> string" where
  "str_nat n =
     (if n < 10 then [''0123456789'' ! n]
      else str_nat (n div 10) @ [''0123456789'' ! (n mod 10)])"

declare str_nat.simps [simp del]

definition str_int :: "int \<Rightarrow> string" where
  "str_int i = (if i < 0 then CHR ''-'' # str_nat (nat (- i)) else str_nat (nat i))"

text \<open>
  \<^verbatim>\<open>random.randint(a, b)\<close> returns \<open>a + k\<close> for a draw \<open>k\<close> below \<open>b - a + 1\<close>; the raw
  draw \<open>rnd\<close> is reduced to that range. \<^verbatim>\<open>random.choice(seq)\<close> indexes with a draw below
  \<open>len(seq)\<close>.
\<close>

definition randint :: "int \<Rightarrow> int \<Rightarrow> nat \<Rightarrow> int" where
  "randint a b rnd = a + int (rnd mod nat (b - a + 1))"

definition choice :: "'a list \<Rightarrow> nat \<Rightarrow> 'a" where
  "choice seq rnd = seq ! (rnd mod length seq)"

subsection \<open>Database rows (\<^verbatim>\<open>app/models\<close>)\<close>

text \<open>Of \<^verbatim>\<open>Book\<close>, \<^verbatim>\<open>Movie\<close> and \<^verbatim>\<open>Game\<close> the tracker reads the title and reads and
  writes the popularity score.\<close>

record Content =
  title :: string
  popularity_score :: rat

record UserInteraction =
  user_id :: int
  content_type :: string
  content_id :: int
  interaction_type :: string
  rating :: "int option"
  progress_percent :: int
  start_date :: datetime
  completion_date :: "datetime option"
  simulation_duration :: "int option"
  tags_extracted :: "string list option"

text \<open>The tables. \<open>user_interactions\<close> is keyed by the primary key \<^verbatim>\<open>interaction_id\<close>.\<close>

record database =
  books :: "int \<rightharpoonup> Content"
  movies :: "int \<rightharpoonup> Content"
  games :: "int \<rightharpoonup> Content"
  user_interactions :: "(int \<times> UserInteraction) list"

text \<open>The primary key the store gives a new row: one more than the largest key present
  (the rule of the SQLite engine the application is configured with), 1 for an empty table.\<close>

definition next_interaction_id :: "(int \<times> UserInteraction) list \<Rightarrow> int" where
  "next_interaction_id rows = fold (\<lambda>(k, _) m. max m (k + 1)) rows 1"

text \<open>\<^verbatim>\<open>db.add(interaction); db.commit(); db.refresh(interaction)\<close>.\<close>

definition add_interaction :: "database \<Rightarrow> UserInteraction \<Rightarrow> int \<times> database" where
  "add_interaction d interaction =
     (let new_id = next_interaction_id (user_interactions d)
      in (new_id, d\<lparr>user_interactions := user_interactions d @ [(new_id, interaction)]\<rparr>))"

text \<open>\<^verbatim>\<open>db.query(UserInteraction).filter(UserInteraction.interaction_id == i).first()\<close>.\<close>

definition query_interaction :: "database \<Rightarrow> int \<Rightarrow> UserInteraction option" where
  "query_interaction d i = map_of (user_interactions d) i"

text \<open>Attribute writes on the row object followed by \<^verbatim>\<open>db.commit()\<close>.\<close>

definition commit_interaction :: "database \<Rightarrow> int \<Rightarrow> UserInteraction \<Rightarrow> database" where
  "commit_interaction d i interaction =
     d\<lparr>user_interactions := AList.update i interaction (user_interactions d)\<rparr>"

subsection \<open>The service state\<close>

text \<open>An event text is one of the Cyrillic literals of \<^verbatim>\<open>SIMULATION_EVENTS\<close>; it is
  represented by its content type and its position in the source's list.\<close>

datatype event = Event string nat

text \<open>The dict stored under a simulation key; field \<open>sim_x\<close> is the entry \<^verbatim>\<open>sim["x"]\<close>.\<close>

record simulation =
  sim_interaction_id :: int
  sim_user_id :: int
  sim_content_type :: string
  sim_content_id :: int
  sim_content_title :: string
  sim_start_time :: datetime
  sim_total_time :: int
  sim_events :: "event list"

record SimulationService =
  db :: database
  active_simulations :: "(string \<times> simulation) list"

definition SIMULATION_TIMES :: "string \<Rightarrow> (int \<times> int) option" where
  "SIMULATION_TIMES ct =
     (if ct = ''book'' then Some (30, 180)
      else if ct = ''movie'' then Some (20, 60)
      else if ct = ''game'' then Some (45, 300)
      else None)"

definition SIMULATION_EVENTS :: "string \<Rightarrow> event list option" where
  "SIMULATION_EVENTS ct =
     (if ct = ''book'' then
        Some [Event ''book'' 0, Event ''book'' 1, Event ''book'' 2, Event ''book'' 3,
              Event ''book'' 4]
      else if ct = ''movie'' then
        Some [Event ''movie'' 0, Event ''movie'' 1, Event ''movie'' 2, Event ''movie'' 3,
              Event ''movie'' 4]
      else if ct = ''game'' then
        Some [Event ''game'' 0, Event ''game'' 1, Event ''game'' 2, Event ''game'' 3,
              Event ''game'' 4, Event ''game'' 5]
      else None)"

text \<open>\<^verbatim>\<open>__init__\<close>.\<close>

definition init :: "database \<Rightarrow> SimulationService" where
  "init d = \<lparr>db = d, active_simulations = []\<rparr>"

subsection \<open>Catalog access\<close>

definition get_content :: "database \<Rightarrow> string \<Rightarrow> int \<Rightarrow> Content option" where
  "get_content d ct cid =
     (if ct = ''book'' then books d cid
      else if ct = ''movie'' then movies d cid
      else if ct = ''game'' then games d cid
      else None)"

text \<open>Writing an attribute of the row \<open>get_content\<close> returned, then \<^verbatim>\<open>db.commit()\<close>.\<close>

definition commit_content :: "database \<Rightarrow> string \<Rightarrow> int \<Rightarrow> Content \<Rightarrow> database" where
  "commit_content d ct cid c =
     (if ct = ''book'' then d\<lparr>books := (books d)(cid \<mapsto> c)\<rparr>
      else if ct = ''movie'' then d\<lparr>movies := (movies d)(cid \<mapsto> c)\<rparr>
      else if ct = ''game'' then d\<lparr>games := (games d)(cid \<mapsto> c)\<rparr>
      else d)"

text \<open>The verbs are Cyrillic literals in the source; they are named here by transliteration.\<close>

datatype verb = Chtenie | Prosmotr | Igru | Vzaimodejstvie

definition get_action_verb :: "string \<Rightarrow> verb" where
  "get_action_verb ct =
     (if ct = ''book'' then Chtenie
      else if ct = ''movie'' then Prosmotr
      else if ct = ''game'' then Igru
      else Vzaimodejstvie)"

text \<open>The three message templates, each filled with a verb and a title.\<close>

datatype message =
    Start_message verb string
  | Complete_message verb string
  | Cancel_message verb string

definition update_content_popularity :: "database \<Rightarrow> string \<Rightarrow> int \<Rightarrow> int \<Rightarrow> database" where
  "update_content_popularity d ct cid r =
     (case get_content d ct cid of
        None \<Rightarrow> d
      | Some content \<Rightarrow>
          (let new_score =
                 float_add (float_mul (popularity_score content) (double (9 / 10)))
                   (float_mul (float_of_int r) (double (1 / 10)))
           in commit_content d ct cid (content\<lparr>popularity_score := py_round2 new_score\<rparr>)))"

definition calculate_experience :: "int \<Rightarrow> int \<Rightarrow> int" where
  "calculate_experience r duration =
     (let base_exp = r * 10; time_bonus = min (duration div 30) 50
      in base_exp + time_bonus)"

subsection \<open>\<^verbatim>\<open>start_simulation\<close>\<close>

record start_report =
  simulation_id :: string
  interaction_id :: int
  estimated_time :: int
  content_title :: string
  message :: message

definition simulation_key :: "int \<Rightarrow> string \<Rightarrow> int \<Rightarrow> string" where
  "simulation_key uid ct cid = str_int uid @ ''_'' @ ct @ ''_'' @ str_int cid"

text \<open>\<open>now\<close> is the clock reading stored as \<^verbatim>\<open>start_date\<close>, \<open>now'\<close> the later one stored as
  \<^verbatim>\<open>start_time\<close>, \<open>rnd\<close> the draw of \<^verbatim>\<open>random.randint\<close>.\<close>

definition start_simulation ::
  "SimulationService \<Rightarrow> datetime \<Rightarrow> datetime \<Rightarrow> nat \<Rightarrow> int \<Rightarrow> string \<Rightarrow> int
     \<Rightarrow> (error + start_report) \<times> SimulationService" where
  "start_simulation self now now' rnd uid ct cid =
     (case get_content (db self) ct cid of
        None \<Rightarrow>
          (Inl (ValueError (''Content not found: '' @ ct @ '' '' @ str_int cid)), self)
      | Some content \<Rightarrow>
          (let interaction =
                 \<lparr>user_id = uid, content_type = ct, content_id = cid,
                  interaction_type = ''started'', rating = None, progress_percent = 0,
                  start_date = now, completion_date = None, simulation_duration = None,
                  tags_extracted = Some []\<rparr>;
               (new_id, d1) = add_interaction (db self) interaction;
               self1 = self\<lparr>db := d1\<rparr>
           in case SIMULATION_TIMES ct of
                None \<Rightarrow> (Inl (KeyError ct), self1)
              | Some (lo, hi) \<Rightarrow>
                  (let simulation_time = randint lo hi rnd;
                       key = simulation_key uid ct cid;
                       sim = \<lparr>sim_interaction_id = new_id, sim_user_id = uid,
                              sim_content_type = ct, sim_content_id = cid,
                              sim_content_title = title content, sim_start_time = now',
                              sim_total_time = simulation_time, sim_events = []\<rparr>
                   in (Inr \<lparr>simulation_id = key, interaction_id = new_id,
                            estimated_time = simulation_time,
                            content_title = title content,
                            message = Start_message (get_action_verb ct) (title content)\<rparr>,
                       self1\<lparr>active_simulations :=
                                AList.update key sim (active_simulations self1)\<rparr>))))"

subsection \<open>\<^verbatim>\<open>get_simulation_progress\<close>\<close>

record progress_report =
  progress :: int
  completed :: bool
  event :: "event option"
  progress_content_title :: string
  elapsed_time :: int

text \<open>The percentage computed from the two clock readings and the planned duration:
  \<^verbatim>\<open>min(100, int((elapsed / sim["total_time"]) * 100))\<close>, a float division and a float
  multiplication.\<close>

definition progress_of :: "simulation \<Rightarrow> datetime \<Rightarrow> int" where
  "progress_of sim now =
     min 100 (py_int (float_mul
                (float_div (total_seconds (now - sim_start_time sim))
                   (float_of_int (sim_total_time sim)))
                (float_of_int 100)))"

text \<open>\<open>u\<close> is the draw of \<^verbatim>\<open>random.random()\<close>, \<open>k\<close> the draw of \<^verbatim>\<open>random.choice\<close>; both are
  consulted only where the source's short-circuit \<^verbatim>\<open>and\<close> reaches them.\<close>

definition get_simulation_progress ::
  "SimulationService \<Rightarrow> datetime \<Rightarrow> rat \<Rightarrow> nat \<Rightarrow> string
     \<Rightarrow> (error + progress_report) \<times> SimulationService" where
  "get_simulation_progress self now u k sid =
     (case map_of (active_simulations self) sid of
        None \<Rightarrow> (Inl (ValueError ''Simulation not found''), self)
      | Some sim \<Rightarrow>
          (let elapsed = total_seconds (now - sim_start_time sim)
           in if sim_total_time sim = 0 then (Inl ZeroDivisionError, self)
              else
                (let progress = progress_of sim now;
                     self1 =
                       (case query_interaction (db self) (sim_interaction_id sim) of
                          None \<Rightarrow> self
                        | Some interaction \<Rightarrow>
                            self\<lparr>db := commit_interaction (db self) (sim_interaction_id sim)
                                          (interaction\<lparr>progress_percent := progress\<rparr>)\<rparr>)
                 in if 20 < progress \<and> length (sim_events sim) < 3 \<and> u < 3 / 10 then
                      (case SIMULATION_EVENTS (sim_content_type sim) of
                         None \<Rightarrow> (Inl (KeyError (sim_content_type sim)), self1)
                       | Some evs \<Rightarrow>
                           (let ev = choice evs k;
                                sim' = sim\<lparr>sim_events := sim_events sim @ [ev]\<rparr>
                            in (Inr \<lparr>progress = progress, completed = (100 \<le> progress),
                                     event = Some ev,
                                     progress_content_title = sim_content_title sim,
                                     elapsed_time = py_int elapsed\<rparr>,
                                self1\<lparr>active_simulations :=
                                         AList.update sid sim' (active_simulations self1)\<rparr>)))
                    else
                      (Inr \<lparr>progress = progress, completed = (100 \<le> progress),
                            event = None,
                            progress_content_title = sim_content_title sim,
                            elapsed_time = py_int elapsed\<rparr>,
                       self1))))"

subsection \<open>\<^verbatim>\<open>complete_simulation\<close>\<close>

record complete_report =
  complete_message :: message
  complete_rating :: int
  duration :: int
  experience_gained :: int

text \<open>
  \<open>personal_tags\<close> is \<open>None\<close> for the default argument. The local \<^verbatim>\<open>actual_duration\<close> is
  bound only inside \<^verbatim>\<open>if interaction:\<close>; it is an \<open>option\<close> here, and reading it unbound
  while the return value is built raises \<^verbatim>\<open>UnboundLocalError\<close>, after the session was
  deleted and the popularity written. \<^verbatim>\<open>list(set(...))\<close> is modelled by \<open>remdups\<close>: Python
  leaves the order of the result open.
\<close>

definition complete_simulation ::
  "SimulationService \<Rightarrow> datetime \<Rightarrow> string \<Rightarrow> int \<Rightarrow> string list option
     \<Rightarrow> (error + complete_report) \<times> SimulationService" where
  "complete_simulation self now sid r personal_tags =
     (case map_of (active_simulations self) sid of
        None \<Rightarrow> (Inl (ValueError ''Simulation not found''), self)
      | Some sim \<Rightarrow>
          (let (actual_duration, self1) =
                 (case query_interaction (db self) (sim_interaction_id sim) of
                    None \<Rightarrow> (None, self)
                  | Some interaction \<Rightarrow>
                      (let dur = py_int (total_seconds (now - sim_start_time sim));
                           i1 = interaction\<lparr>interaction_type := ''completed'',
                                  rating := Some r, progress_percent := 100,
                                  completion_date := Some now,
                                  simulation_duration := Some dur\<rparr>;
                           i2 = (case personal_tags of
                                   None \<Rightarrow> i1
                                 | Some ts \<Rightarrow>
                                     if ts = [] then i1
                                     else
                                       (let existing_tags =
                                              (case tags_extracted i1 of
                                                 None \<Rightarrow> []
                                               | Some e \<Rightarrow> e)
                                        in i1\<lparr>tags_extracted :=
                                                Some (remdups (existing_tags @ ts))\<rparr>))
                       in (Some dur,
                           self\<lparr>db := commit_interaction (db self)
                                         (sim_interaction_id sim) i2\<rparr>)));
               self2 = self1\<lparr>active_simulations :=
                                AList.delete sid (active_simulations self1)\<rparr>;
               self3 = self2\<lparr>db := update_content_popularity (db self2)
                                       (sim_content_type sim) (sim_content_id sim) r\<rparr>
           in case actual_duration of
                None \<Rightarrow> (Inl (UnboundLocalError ''actual_duration''), self3)
              | Some dur \<Rightarrow>
                  (Inr \<lparr>complete_message =
                          Complete_message (get_action_verb (sim_content_type sim))
                            (sim_content_title sim),
                        complete_rating = r, duration = dur,
                        experience_gained = calculate_experience r dur\<rparr>,
                   self3)))"

subsection \<open>\<^verbatim>\<open>cancel_simulation\<close>\<close>

definition cancel_simulation ::
  "SimulationService \<Rightarrow> datetime \<Rightarrow> string \<Rightarrow> (error + message) \<times> SimulationService" where
  "cancel_simulation self now sid =
     (case map_of (active_simulations self) sid of
        None \<Rightarrow> (Inl (ValueError ''Simulation not found''), self)
      | Some sim \<Rightarrow>
          (let self1 =
                 (case query_interaction (db self) (sim_interaction_id sim) of
                    None \<Rightarrow> self
                  | Some interaction \<Rightarrow>
                      self\<lparr>db := commit_interaction (db self) (sim_interaction_id sim)
                                    (interaction\<lparr>interaction_type := ''dropped'',
                                       completion_date := Some now\<rparr>)\<rparr>)
           in (Inr (Cancel_message (get_action_verb (sim_content_type sim))
                      (sim_content_title sim)),
               self1\<lparr>active_simulations := AList.delete sid (active_simulations self1)\<rparr>)))"

subsection \<open>The request handlers\<close>

text \<open>What a handler hands back: the payload, an \<^verbatim>\<open>HTTPException\<close> it raised itself, or an
  exception it did not catch.\<close>

datatype 'a response = Ok 'a | HTTPException nat string | Unhandled error

text \<open>The schema \<^verbatim>\<open>SimulationComplete\<close>: \<^verbatim>\<open>rating: int\<close>, \<^verbatim>\<open>personal_tags: List[str] = []\<close>.
  The fields carry no constraint beyond their types, so every value of this record is a body
  the handler accepts.\<close>

record SimulationComplete =
  body_rating :: int
  body_personal_tags :: "string list"

text \<open>\<^verbatim>\<open>POST /simulation/complete/{simulation_id}\<close>. The background task added after
  the call only constructs a service object and is left out.\<close>

definition api_complete_simulation ::
  "SimulationService \<Rightarrow> datetime \<Rightarrow> string \<Rightarrow> SimulationComplete
     \<Rightarrow> complete_report response \<times> SimulationService" where
  "api_complete_simulation self now sid completion_data =
     (case complete_simulation self now sid (body_rating completion_data)
             (Some (body_personal_tags completion_data)) of
        (Inr result, self') \<Rightarrow> (Ok result, self')
      | (Inl (ValueError m), self') \<Rightarrow> (HTTPException 404 m, self')
      | (Inl e, self') \<Rightarrow> (Unhandled e, self'))"

record active_summary =
  summary_simulation_id :: string
  summary_content_title :: string
  summary_content_type :: string
  summary_progress :: int
  summary_start_time :: datetime

text \<open>\<^verbatim>\<open>GET /simulation/active\<close>: the loop over \<^verbatim>\<open>active_simulations.items()\<close>. \<open>env\<close> gives,
  for the simulation polled, the clock reading and the two random draws of that call of
  \<^verbatim>\<open>get_simulation_progress\<close>. The handler catches nothing.\<close>

fun active_loop ::
  "(string \<Rightarrow> datetime \<times> rat \<times> nat) \<Rightarrow> int \<Rightarrow> (string \<times> simulation) list
     \<Rightarrow> SimulationService \<Rightarrow> active_summary list
     \<Rightarrow> (error + active_summary list) \<times> SimulationService" where
  "active_loop env uid [] self user_simulations = (Inr user_simulations, self)"
| "active_loop env uid ((sim_id, sim_data) # rest) self user_simulations =
     (if sim_user_id sim_data = uid then
        (case env sim_id of
           (now, u, k) \<Rightarrow>
             (case get_simulation_progress self now u k sim_id of
                (Inl e, self') \<Rightarrow> (Inl e, self')
              | (Inr p, self') \<Rightarrow>
                  active_loop env uid rest self'
                    (user_simulations @
                       [\<lparr>summary_simulation_id = sim_id,
                         summary_content_title = sim_content_title sim_data,
                         summary_content_type = sim_content_type sim_data,
                         summary_progress = progress p,
                         summary_start_time = sim_start_time sim_data\<rparr>])))
      else active_loop env uid rest self user_simulations)"

definition get_active_simulations ::
  "(string \<Rightarrow> datetime \<times> rat \<times> nat) \<Rightarrow> SimulationService \<Rightarrow> int
     \<Rightarrow> (error + active_summary list) \<times> SimulationService" where
  "get_active_simulations env self uid =
     active_loop env uid (active_simulations self) self []"

text \<open>\<^verbatim>\<open>DELETE /interactions/{interaction_id}\<close> of \<^verbatim>\<open>api/interactions.py\<close>: the owner of
  a ledger row may delete it at any time, also while a simulation still refers to it. Where
  the query finds no row of that user the handler evaluates \<^verbatim>\<open>HTTPException\<close>, a name the
  module never imports, so what it raises there is a \<^verbatim>\<open>NameError\<close>.\<close>

definition delete_interaction :: "database \<Rightarrow> int \<Rightarrow> int \<Rightarrow> string response \<times> database" where
  "delete_interaction d iid uid =
     (case query_interaction d iid of
        None \<Rightarrow> (Unhandled (NameError ''HTTPException''), d)
      | Some interaction \<Rightarrow>
          if user_id interaction = uid then
            (Ok ''Interaction deleted successfully'',
             d\<lparr>user_interactions := AList.delete iid (user_interactions d)\<rparr>)
          else (Unhandled (NameError ''HTTPException''), d))"

subsection \<open>Reachable states and their invariant\<close>

text \<open>A stored simulation is valid when its content type has a configured range, its planned
  time lies in that range, and it holds at most three events.\<close>

definition valid_simulation :: "simulation \<Rightarrow> bool" where
  "valid_simulation sim =
     (case SIMULATION_TIMES (sim_content_type sim) of
        None \<Rightarrow> False
      | Some (lo, hi) \<Rightarrow>
          lo \<le> sim_total_time sim \<and> sim_total_time sim \<le> hi
          \<and> length (sim_events sim) \<le> 3)"

definition wf_service :: "SimulationService \<Rightarrow> bool" where
  "wf_service self =
     (distinct (map fst (active_simulations self))
      \<and> list_all (\<lambda>(k, sim). valid_simulation sim) (active_simulations self))"

text \<open>The states the service can be in: created by \<^verbatim>\<open>__init__\<close>, then changed by its own
  operations, by the handler that lists simulations, and by everything else that writes the
  database (the handler rebinds \<^verbatim>\<open>simulation_service.db\<close> on each request).\<close>

inductive reachable :: "SimulationService \<Rightarrow> bool" where
  r_init: "reachable (init d)"
| r_db: "reachable self \<Longrightarrow> reachable (self\<lparr>db := d\<rparr>)"
| r_start: "reachable self \<Longrightarrow> reachable (snd (start_simulation self now now' rnd uid ct cid))"
| r_progress: "reachable self \<Longrightarrow> reachable (snd (get_simulation_progress self now u k sid))"
| r_complete: "reachable self \<Longrightarrow> reachable (snd (complete_simulation self now sid r tags))"
| r_cancel: "reachable self \<Longrightarrow> reachable (snd (cancel_simulation self now sid))"
| r_active: "reachable self \<Longrightarrow> reachable (snd (get_active_simulations env self uid))"

subsection \<open>Notions used to state the properties\<close>

text \<open>The row \<^verbatim>\<open>start_simulation\<close> inserts.\<close>

definition started_interaction :: "int \<Rightarrow> string \<Rightarrow> int \<Rightarrow> datetime \<Rightarrow> UserInteraction" where
  "started_interaction uid ct cid now =
     \<lparr>user_id = uid, content_type = ct, content_id = cid, interaction_type = ''started'',
      rating = None, progress_percent = 0, start_date = now, completion_date = None,
      simulation_duration = None, tags_extracted = Some []\<rparr>"

text \<open>The row \<^verbatim>\<open>complete_simulation\<close> writes back, given the row it read, the clock
  reading, the duration, the rating and the tags.\<close>

definition completed_row ::
  "UserInteraction \<Rightarrow> datetime \<Rightarrow> int \<Rightarrow> int \<Rightarrow> string list option \<Rightarrow> UserInteraction" where
  "completed_row i now dur r tags =
     (let i1 = i\<lparr>interaction_type := ''completed'', rating := Some r,
                 progress_percent := 100, completion_date := Some now,
                 simulation_duration := Some dur\<rparr>
      in case tags of
           None \<Rightarrow> i1
         | Some ts \<Rightarrow>
             if ts = [] then i1
             else i1\<lparr>tags_extracted :=
                      Some (remdups ((case tags_extracted i of None \<Rightarrow> [] | Some e \<Rightarrow> e)
                                      @ ts))\<rparr>)"

text \<open>The database after \<^verbatim>\<open>get_simulation_progress\<close> wrote the percentage \<open>p\<close> for \<open>sim\<close>.\<close>

definition progress_db :: "database \<Rightarrow> simulation \<Rightarrow> int \<Rightarrow> database" where
  "progress_db d sim p =
     (case query_interaction d (sim_interaction_id sim) of
        None \<Rightarrow> d
      | Some interaction \<Rightarrow>
          commit_interaction d (sim_interaction_id sim) (interaction\<lparr>progress_percent := p\<rparr>))"

text \<open>The simulations of a user, in the order of the session map.\<close>

definition owned :: "int \<Rightarrow> (string \<times> simulation) list \<Rightarrow> (string \<times> simulation) list" where
  "owned uid sims = filter (\<lambda>(sim_id, sim_data). sim_user_id sim_data = uid) sims"

text \<open>One call of \<^verbatim>\<open>get_simulation_progress\<close> on the simulation \<open>sim_id\<close>, with the clock
  reading and the draws \<open>env\<close> gives for it, keeping only the state it leaves.\<close>

definition poll ::
  "(string \<Rightarrow> datetime \<times> rat \<times> nat) \<Rightarrow> string \<times> simulation \<Rightarrow> SimulationService
     \<Rightarrow> SimulationService" where
  "poll env item self =
     (case env (fst item) of
        (now, u, k) \<Rightarrow> snd (get_simulation_progress self now u k (fst item)))"

text \<open>The summary \<^verbatim>\<open>GET /simulation/active\<close> gives for an entry of the session map.\<close>

definition summary_of ::
  "(string \<Rightarrow> datetime \<times> rat \<times> nat) \<Rightarrow> string \<times> simulation \<Rightarrow> active_summary" where
  "summary_of env item =
     \<lparr>summary_simulation_id = fst item,
      summary_content_title = sim_content_title (snd item),
      summary_content_type = sim_content_type (snd item),
      summary_progress = progress_of (snd item) (fst (env (fst item))),
      summary_start_time = sim_start_time (snd item)\<rparr>"

text \<open>\<open>later sid s s'\<close>: the state \<open>s'\<close> comes after \<open>s\<close> through any operations of the
  service and any database writes, none of them a \<^verbatim>\<open>start_simulation\<close> under the key
  \<open>sid\<close>.\<close>

inductive later :: "string \<Rightarrow> SimulationService \<Rightarrow> SimulationService \<Rightarrow> bool" for sid where
  l_refl: "later sid s s"
| l_db: "later sid s s' \<Longrightarrow> later sid s (s'\<lparr>db := d\<rparr>)"
| l_start: "later sid s s' \<Longrightarrow> simulation_key uid ct cid \<noteq> sid
     \<Longrightarrow> later sid s (snd (start_simulation s' now now' rnd uid ct cid))"
| l_progress: "later sid s s' \<Longrightarrow> later sid s (snd (get_simulation_progress s' now u k sid'))"
| l_complete: "later sid s s' \<Longrightarrow> later sid s (snd (complete_simulation s' now sid' r tags))"
| l_cancel: "later sid s s' \<Longrightarrow> later sid s (snd (cancel_simulation s' now sid'))"
| l_active: "later sid s s' \<Longrightarrow> later sid s (snd (get_active_simulations env s' uid))"

subsection \<open>A small concrete system\<close>

definition demo_db :: database where
  "demo_db =
     \<lparr>books = [1 \<mapsto> \<lparr>title = ''Dune'', popularity_score = 8\<rparr>],
      movies = Map.empty, games = Map.empty, user_interactions = []\<rparr>"

text \<open>User 7 has started book 1 at clock reading 1001 (microseconds), with draw 12, hence a
  planned time of 42 seconds.\<close>

definition demo_started :: SimulationService where
  "demo_started = snd (start_simulation (init demo_db) 1000 1001 12 7 ''book'' 1)"

definition demo_simulation :: simulation where
  "demo_simulation =
     \<lparr>sim_interaction_id = 1, sim_user_id = 7, sim_content_type = ''book'',
      sim_content_id = 1, sim_content_title = ''Dune'', sim_start_time = 1001,
      sim_total_time = 42, sim_events = []\<rparr>"

definition demo_interaction :: UserInteraction where
  "demo_interaction =
     \<lparr>user_id = 7, content_type = ''book'', content_id = 1, interaction_type = ''started'',
      rating = None, progress_percent = 0, start_date = 1000, completion_date = None,
      simulation_duration = None, tags_extracted = Some []\<rparr>"

text \<open>The concrete system after the owner deleted the ledger row of the running simulation.\<close>

definition demo_orphaned :: SimulationService where
  "demo_orphaned = demo_started\<lparr>db := snd (delete_interaction (db demo_started) 1 7)\<rparr>"


text \<open>A poll of the running simulation 21 seconds after its start, with a draw of
  \<^verbatim>\<open>random.random()\<close> of 0.1 and a draw of 3 for \<^verbatim>\<open>random.choice\<close>.\<close>

definition demo_env :: "string \<Rightarrow> datetime \<times> rat \<times> nat" where
  "demo_env sim_id = (21001001, 1 / 10, 3)"

section \<open>Properties\<close>

subsection \<open>Binary floating point: bit length\<close>

lemma bit_length_nonneg: "0 \<le> bit_length n"
proof (induction n rule: bit_length.induct)
  case (1 n)
  then show ?case by (subst bit_length.simps) auto
qed

lemma bit_length_pos: "0 < n \<Longrightarrow> 1 \<le> bit_length n"
  using bit_length_nonneg [of "n div 2"] by (subst bit_length.simps) auto

lemma bit_length_bounds:
  "0 < n \<Longrightarrow> 2 ^ nat (bit_length n - 1) \<le> n \<and> n < 2 ^ nat (bit_length n)"
proof (induction n rule: bit_length.induct)
  case (1 n)
  have n: "0 < n" by (rule "1.prems")
  have bl: "bit_length n = 1 + bit_length (n div 2)"
    using n by (subst bit_length.simps) simp
  show ?case
  proof (cases "n div 2 = 0")
    case True
    then have "n = 1" using n by presburger
    moreover have "bit_length 0 = 0" by (subst bit_length.simps) simp
    ultimately show ?thesis using bl True by simp
  next
    case False
    then have h: "0 < n div 2" using n by presburger
    have ih: "2 ^ nat (bit_length (n div 2) - 1) \<le> n div 2
              \<and> n div 2 < 2 ^ nat (bit_length (n div 2))"
      using "1.IH" n h by simp
    have b1: "1 \<le> bit_length (n div 2)" using h by (rule bit_length_pos)
    have e1: "nat (bit_length n - 1) = Suc (nat (bit_length (n div 2) - 1))"
      using bl b1 by simp
    have e2: "nat (bit_length n) = Suc (nat (bit_length (n div 2)))"
      using bl b1 by simp
    have lo: "2 * (n div 2) \<le> n" by presburger
    have hi: "n < 2 * (n div 2) + 2" by presburger
    have "(2::int) ^ nat (bit_length n - 1) = 2 * 2 ^ nat (bit_length (n div 2) - 1)"
      by (simp add: e1)
    also have "\<dots> \<le> 2 * (n div 2)" using ih by simp
    finally have A: "2 ^ nat (bit_length n - 1) \<le> n" using lo by simp
    have "n div 2 + 1 \<le> 2 ^ nat (bit_length (n div 2))" using ih by simp
    then have "2 * (n div 2) + 2 \<le> 2 * 2 ^ nat (bit_length (n div 2))" by simp
    then have B: "n < 2 ^ nat (bit_length n)" using hi by (simp add: e2)
    show ?thesis using A B by simp
  qed
qed

lemma bit_length_powi:
  assumes "0 < n"
  shows "(2::rat) powi (bit_length n - 1) \<le> of_int n" and "of_int n < (2::rat) powi bit_length n"
proof -
  have b1: "1 \<le> bit_length n" using assms by (rule bit_length_pos)
  have A: "2 ^ nat (bit_length n - 1) \<le> n" and B: "n < 2 ^ nat (bit_length n)"
    using bit_length_bounds [OF assms] by simp_all
  have "(of_int (2 ^ nat (bit_length n - 1)) :: rat) \<le> of_int n"
    using A by (simp only: of_int_le_iff)
  then show "(2::rat) powi (bit_length n - 1) \<le> of_int n"
    using b1 by (simp add: power_int_def)
  have "(of_int n :: rat) < of_int (2 ^ nat (bit_length n))"
    using B by (simp only: of_int_less_iff)
  then show "of_int n < (2::rat) powi bit_length n"
    using b1 by (simp add: power_int_def)
qed

subsection \<open>The binary exponent\<close>

lemma powi2_add: "(2::rat) powi (a + b) = 2 powi a * 2 powi b"
  by (rule power_int_add) simp

lemma powi2_pos [simp]: "0 < (2::rat) powi a"
  by simp

lemma powi2_mono: "a \<le> b \<Longrightarrow> (2::rat) powi a \<le> 2 powi b"
  by (rule power_int_increasing) simp_all

lemma powi2_strict_mono: "a < b \<Longrightarrow> (2::rat) powi a < 2 powi b"
  by (rule power_int_strict_increasing) simp_all

lemma powi2_less_imp: "(2::rat) powi a < 2 powi b \<Longrightarrow> a < b"
proof (rule ccontr)
  assume l: "(2::rat) powi a < 2 powi b" and "\<not> a < b"
  then have "b \<le> a" by simp
  then have "(2::rat) powi b \<le> 2 powi a" by (rule powi2_mono)
  with l show False by simp
qed

lemma floor_log2_bounds:
  assumes "0 < x"
  shows "2 powi floor_log2 x \<le> x" and "x < 2 powi (floor_log2 x + 1)"
proof -
  obtain p q where pq: "quotient_of x = (p, q)" by (cases "quotient_of x")
  have q: "0 < q" using pq by (rule quotient_of_denom_pos)
  have x: "x = of_int p / of_int q" using pq by (rule quotient_of_div)
  have p: "0 < p"
  proof (rule ccontr)
    assume "\<not> 0 < p"
    then have "(of_int p :: rat) \<le> 0" by simp
    then have "x \<le> 0" using q x by (simp add: divide_le_0_iff)
    with assms show False by simp
  qed
  have qr: "(0::rat) < of_int q" using q by simp
  have xq: "x * of_int q = of_int p" using x qr by simp
  let ?e0 = "bit_length p - bit_length q"
  have up: "x < 2 powi (?e0 + 1)"
  proof -
    have "of_int p < (2::rat) powi bit_length p" using p by (rule bit_length_powi)
    also have "\<dots> = 2 powi (?e0 + 1) * 2 powi (bit_length q - 1)"
      by (simp flip: powi2_add)
    also have "\<dots> \<le> 2 powi (?e0 + 1) * of_int q"
      using bit_length_powi(1) [OF q] by (intro mult_left_mono) simp_all
    finally have "x * of_int q < 2 powi (?e0 + 1) * of_int q" using xq by simp
    then show ?thesis using qr by simp
  qed
  have low: "2 powi (?e0 - 1) \<le> x"
  proof -
    have "2 powi (?e0 - 1) * of_int q \<le> 2 powi (?e0 - 1) * (2::rat) powi bit_length q"
      using bit_length_powi(2) [OF q] by (intro mult_left_mono) simp_all
    also have "\<dots> = 2 powi (bit_length p - 1)"
      by (simp flip: powi2_add)
    also have "\<dots> \<le> of_int p" using p by (rule bit_length_powi)
    finally have "2 powi (?e0 - 1) * of_int q \<le> x * of_int q" using xq by simp
    then show ?thesis using qr by simp
  qed
  have fl: "floor_log2 x = (if 2 powi ?e0 \<le> x then ?e0 else ?e0 - 1)"
    by (simp add: floor_log2_def pq Let_def)
  show "2 powi floor_log2 x \<le> x" using low by (simp add: fl)
  show "x < 2 powi (floor_log2 x + 1)" using up by (auto simp: fl)
qed

lemma floor_log2_unique:
  assumes "0 < x" and "2 powi e \<le> x" and "x < 2 powi (e + 1)"
  shows "floor_log2 x = e"
proof -
  have "2 powi floor_log2 x < (2::rat) powi (e + 1)"
    using floor_log2_bounds(1) [OF assms(1)] assms(3) by simp
  then have a: "floor_log2 x < e + 1" by (rule powi2_less_imp)
  have "(2::rat) powi e < 2 powi (floor_log2 x + 1)"
    using floor_log2_bounds(2) [OF assms(1)] assms(2) by simp
  then have b: "e < floor_log2 x + 1" by (rule powi2_less_imp)
  show ?thesis using a b by simp
qed

lemma float_exponent_bounds:
  assumes "x \<noteq> 0"
  shows "2 powi (float_exponent x + 52) \<le> \<bar>x\<bar>" and "\<bar>x\<bar> < 2 powi (float_exponent x + 53)"
proof -
  have a: "0 < \<bar>x\<bar>" using assms by simp
  show "2 powi (float_exponent x + 52) \<le> \<bar>x\<bar>"
    using floor_log2_bounds(1) [OF a] by (simp add: float_exponent_def)
  have "floor_log2 \<bar>x\<bar> + 1 = float_exponent x + 53" by (simp add: float_exponent_def)
  then show "\<bar>x\<bar> < 2 powi (float_exponent x + 53)"
    using floor_log2_bounds(2) [OF a] by (simp only:)
qed

lemma float_exponent_scaled:
  assumes "x \<noteq> 0"
  shows "2 ^ 52 \<le> \<bar>x\<bar> / 2 powi float_exponent x" and "\<bar>x\<bar> / 2 powi float_exponent x < 2 ^ 53"
proof -
  have s: "(0::rat) < 2 powi float_exponent x" by simp
  have "2 ^ 52 * 2 powi float_exponent x = (2::rat) powi (float_exponent x + 52)"
    by (simp add: powi2_add)
  then show "2 ^ 52 \<le> \<bar>x\<bar> / 2 powi float_exponent x"
    using float_exponent_bounds(1) [OF assms] s by (simp add: le_divide_eq)
  have "2 ^ 53 * 2 powi float_exponent x = (2::rat) powi (float_exponent x + 53)"
    by (simp add: powi2_add)
  then show "\<bar>x\<bar> / 2 powi float_exponent x < 2 ^ 53"
    using float_exponent_bounds(2) [OF assms] s by (simp add: divide_less_eq)
qed

subsection \<open>Rounding to an integer\<close>

lemma round_half_even_cases:
  "round_half_even t = \<lfloor>t\<rfloor> \<or> round_half_even t = \<lfloor>t\<rfloor> + 1"
  by (simp add: round_half_even_def Let_def)

lemma round_half_even_of_int [simp]: "round_half_even (of_int n) = n"
  by (simp add: round_half_even_def Let_def)

lemma round_half_even_error: "\<bar>of_int (round_half_even t) - t\<bar> \<le> 1 / 2"
proof -
  have a: "of_int \<lfloor>t\<rfloor> \<le> t" and b: "t < of_int \<lfloor>t\<rfloor> + 1" by linarith+
  show ?thesis
    using a b by (auto simp: round_half_even_def Let_def abs_le_iff)
qed

lemma round_half_even_mono:
  assumes "t \<le> u"
  shows "round_half_even t \<le> round_half_even u"
proof (cases "\<lfloor>t\<rfloor> = \<lfloor>u\<rfloor>")
  case True
  then show ?thesis using assms by (auto simp: round_half_even_def Let_def)
next
  case False
  have "\<lfloor>t\<rfloor> \<le> \<lfloor>u\<rfloor>" using assms by (rule floor_mono)
  with False have "\<lfloor>t\<rfloor> + 1 \<le> \<lfloor>u\<rfloor>" by simp
  moreover have "round_half_even t \<le> \<lfloor>t\<rfloor> + 1" using round_half_even_cases [of t] by auto
  moreover have "\<lfloor>u\<rfloor> \<le> round_half_even u" using round_half_even_cases [of u] by auto
  ultimately show ?thesis by simp
qed

subsection \<open>Rounding to a double\<close>

lemma double_zero [simp]: "double 0 = 0"
  by (simp add: double_def)

lemma float_exponent_neg [simp]: "float_exponent (- x) = float_exponent x"
  by (simp add: float_exponent_def)

lemma double_neg: "double (- x) = - double x"
  by (simp add: double_def Let_def sgn_minus)

lemma double_pos:
  "0 < x \<Longrightarrow> double x
     = of_int (round_half_even (x / 2 powi float_exponent x)) * 2 powi float_exponent x"
  by (simp add: double_def Let_def)

lemma round_scaled_bounds:
  assumes "0 < x"
  shows "2 ^ 52 \<le> round_half_even (x / 2 powi float_exponent x)"
    and "round_half_even (x / 2 powi float_exponent x) \<le> 2 ^ 53"
proof -
  have x: "x \<noteq> 0" "\<bar>x\<bar> = x" using assms by simp_all
  have lo: "of_int (2 ^ 52) \<le> x / 2 powi float_exponent x"
    using float_exponent_scaled(1) [OF x(1)] x(2) by simp
  have hi: "x / 2 powi float_exponent x \<le> of_int (2 ^ 53)"
    using float_exponent_scaled(2) [OF x(1)] x(2) by simp
  show "2 ^ 52 \<le> round_half_even (x / 2 powi float_exponent x)"
    using round_half_even_mono [OF lo] by (simp only: round_half_even_of_int)
  show "round_half_even (x / 2 powi float_exponent x) \<le> 2 ^ 53"
    using round_half_even_mono [OF hi] by (simp only: round_half_even_of_int)
qed

lemma double_pos_bounds:
  assumes "0 < x"
  shows "2 powi (float_exponent x + 52) \<le> double x"
    and "double x \<le> 2 powi (float_exponent x + 53)"
proof -
  let ?s = "(2::rat) powi float_exponent x"
  let ?n = "round_half_even (x / ?s)"
  have s: "0 < ?s" by simp
  have lo: "(2::rat) ^ 52 \<le> of_int ?n"
  proof -
    have "(of_int (2 ^ 52) :: rat) \<le> of_int ?n"
      using round_scaled_bounds(1) [OF assms] by (simp only: of_int_le_iff)
    then show ?thesis by simp
  qed
  have hi: "of_int ?n \<le> (2::rat) ^ 53"
  proof -
    have "(of_int ?n :: rat) \<le> of_int (2 ^ 53)"
      using round_scaled_bounds(2) [OF assms] by (simp only: of_int_le_iff)
    then show ?thesis by simp
  qed
  have "2 powi (float_exponent x + 52) = 2 ^ 52 * ?s" by (simp add: powi2_add)
  also have "\<dots> \<le> of_int ?n * ?s" using lo s by (intro mult_right_mono) simp_all
  finally show "2 powi (float_exponent x + 52) \<le> double x"
    by (simp add: double_pos [OF assms])
  have "of_int ?n * ?s \<le> 2 ^ 53 * ?s" using hi s by (intro mult_right_mono) simp_all
  also have "\<dots> = 2 powi (float_exponent x + 53)" by (simp add: powi2_add)
  finally show "double x \<le> 2 powi (float_exponent x + 53)"
    by (simp add: double_pos [OF assms])
qed

lemma double_pos_pos: "0 < x \<Longrightarrow> 0 < double x"
proof -
  assume x: "0 < x"
  have "(0::rat) < 2 powi (float_exponent x + 52)" by simp
  also have "\<dots> \<le> double x" using x by (rule double_pos_bounds)
  finally show ?thesis .
qed

lemma double_nonneg: "0 \<le> x \<Longrightarrow> 0 \<le> double x"
  using double_pos_pos [of x] by (cases "x = 0") auto

lemma double_mono_pos:
  assumes "0 < x" and "x \<le> y"
  shows "double x \<le> double y"
proof -
  have y: "0 < y" using assms by simp
  have x0: "x \<noteq> 0" "\<bar>x\<bar> = x" and y0: "y \<noteq> 0" "\<bar>y\<bar> = y" using assms y by simp_all
  have "2 powi (float_exponent x + 52) \<le> x"
    using float_exponent_bounds(1) [OF x0(1)] x0(2) by simp
  also have "x \<le> y" by (rule assms)
  also have "y < 2 powi (float_exponent y + 53)"
    using float_exponent_bounds(2) [OF y0(1)] y0(2) by simp
  finally have "float_exponent x + 52 < float_exponent y + 53" by (rule powi2_less_imp)
  then have le: "float_exponent x \<le> float_exponent y" by simp
  show ?thesis
  proof (cases "float_exponent x = float_exponent y")
    case True
    let ?s = "(2::rat) powi float_exponent y"
    have s: "0 < ?s" by simp
    have "x / ?s \<le> y / ?s" using assms(2) s by (simp add: divide_right_mono)
    then have "round_half_even (x / ?s) \<le> round_half_even (y / ?s)"
      by (rule round_half_even_mono)
    then have "(of_int (round_half_even (x / ?s)) :: rat) \<le> of_int (round_half_even (y / ?s))"
      by (simp only: of_int_le_iff)
    then have "of_int (round_half_even (x / ?s)) * ?s \<le> of_int (round_half_even (y / ?s)) * ?s"
      using s by (intro mult_right_mono) simp_all
    then show ?thesis by (simp add: double_pos [OF assms(1)] double_pos [OF y] True)
  next
    case False
    with le have "float_exponent x + 53 \<le> float_exponent y + 52" by simp
    then have m: "(2::rat) powi (float_exponent x + 53) \<le> 2 powi (float_exponent y + 52)"
      by (rule powi2_mono)
    have "double x \<le> 2 powi (float_exponent x + 53)" using assms(1) by (rule double_pos_bounds)
    also note m
    also have "2 powi (float_exponent y + 52) \<le> double y" using y by (rule double_pos_bounds)
    finally show ?thesis .
  qed
qed

lemma double_mono:
  assumes "x \<le> y"
  shows "double x \<le> double y"
proof (cases "0 < x")
  case True
  then show ?thesis using assms by (rule double_mono_pos)
next
  case False
  then have x: "x \<le> 0" by simp
  show ?thesis
  proof (cases "0 \<le> y")
    case True
    have "0 \<le> double (- x)" using x by (intro double_nonneg) simp
    then have "double x \<le> 0" by (simp add: double_neg)
    also have "0 \<le> double y" using True by (rule double_nonneg)
    finally show ?thesis .
  next
    case False
    then have "0 < - y" and "- y \<le> - x" using assms by simp_all
    then have "double (- y) \<le> double (- x)" by (rule double_mono_pos)
    then show ?thesis by (simp add: double_neg)
  qed
qed

lemma double_exact_pos:
  assumes m: "0 < m" "m \<le> 2 ^ 53"
  shows "double (of_int m * 2 powi k) = of_int m * 2 powi k"
proof -
  define x :: rat where "x = of_int m * 2 powi k"
  define e where "e = float_exponent x"
  define s :: rat where "s = 2 powi e"
  have x: "0 < x" using m by (simp add: x_def)
  have x0: "x \<noteq> 0" "\<bar>x\<bar> = x" using x by simp_all
  have s: "0 < s" by (simp add: s_def)
  have lo: "2 powi (e + 52) \<le> x"
    using float_exponent_bounds(1) [OF x0(1)] x0(2) by (simp add: e_def)
  have "\<exists>n. x / s = of_int n"
  proof (cases "e \<le> k")
    case True
    have "(2::rat) powi k = 2 powi (k - e) * s" by (simp add: s_def flip: powi2_add)
    moreover have "(2::rat) powi (k - e) = of_int (2 ^ nat (k - e))"
      using True by (simp add: power_int_def)
    ultimately have "x = of_int (m * 2 ^ nat (k - e)) * s" by (simp add: x_def)
    then have "x / s = of_int (m * 2 ^ nat (k - e))" using s by simp
    then show ?thesis by blast
  next
    case False
    then have "k + 53 \<le> e + 52" by simp
    then have a: "(2::rat) powi (k + 53) \<le> 2 powi (e + 52)" by (rule powi2_mono)
    have "(of_int m :: rat) \<le> of_int (2 ^ 53)" using m(2) by (simp only: of_int_le_iff)
    then have "(of_int m :: rat) \<le> 2 ^ 53" by simp
    then have "x \<le> 2 ^ 53 * 2 powi k" unfolding x_def by (intro mult_right_mono) simp_all
    also have "\<dots> = 2 powi (k + 53)" by (simp add: powi2_add)
    finally have "x \<le> 2 powi (e + 52)" using a by simp
    with lo have "x = 2 powi (e + 52)" by simp
    also have "\<dots> = of_int (2 ^ 52) * s" by (simp add: powi2_add s_def)
    finally have "x / s = of_int (2 ^ 52)" using s by simp
    then show ?thesis by blast
  qed
  then obtain n where n: "x / s = of_int n" by blast
  have "double x = of_int (round_half_even (x / s)) * s"
    using x by (simp add: double_pos s_def e_def)
  also have "\<dots> = of_int n * s" by (simp only: n round_half_even_of_int)
  also have "\<dots> = x / s * s" by (simp only: n)
  also have "\<dots> = x" using s by simp
  finally show ?thesis by (simp only: x_def)
qed

lemma double_exact:
  assumes "\<bar>m\<bar> \<le> 2 ^ 53"
  shows "double (of_int m * 2 powi k) = of_int m * 2 powi k"
proof (cases "m = 0")
  case True
  then show ?thesis by simp
next
  case False
  show ?thesis
  proof (cases "0 < m")
    case True
    then show ?thesis using assms by (intro double_exact_pos) simp_all
  next
    case False
    with \<open>m \<noteq> 0\<close> have "0 < - m" "- m \<le> 2 ^ 53" using assms by simp_all
    then have "double (of_int (- m) * 2 powi k) = of_int (- m) * 2 powi k"
      by (rule double_exact_pos)
    then have "double (- (of_int m * 2 powi k)) = - (of_int m * 2 powi k)" by simp
    then show ?thesis by (simp only: double_neg neg_equal_iff_equal)
  qed
qed

lemma double_of_int: "\<bar>m\<bar> \<le> 2 ^ 53 \<Longrightarrow> double (of_int m) = of_int m"
  using double_exact [of m 0] by simp

lemma double_error:
  "\<bar>double x - x\<bar> \<le> \<bar>x\<bar> / 2 ^ 53"
proof -
  have pos: "\<bar>double x - x\<bar> \<le> x / 2 ^ 53" if x: "0 < x" for x
  proof -
    let ?s = "(2::rat) powi float_exponent x"
    let ?t = "x / ?s"
    have s: "0 < ?s" by simp
    have x0: "x \<noteq> 0" "\<bar>x\<bar> = x" using x by simp_all
    have t: "2 ^ 52 \<le> ?t" using float_exponent_scaled(1) [OF x0(1)] x0(2) by simp
    have "double x - x = (of_int (round_half_even ?t) - ?t) * ?s"
      using s by (simp add: double_pos [OF x] field_simps)
    then have "\<bar>double x - x\<bar> = \<bar>of_int (round_half_even ?t) - ?t\<bar> * ?s"
      using s by (simp add: abs_mult)
    also have "\<dots> \<le> 1 / 2 * ?s"
      using round_half_even_error [of ?t] s by (intro mult_right_mono) simp_all
    also have "\<dots> \<le> ?t / 2 ^ 53 * ?s"
      using t s by (intro mult_right_mono) (simp_all add: field_simps)
    also have "\<dots> = x / 2 ^ 53" using s by simp
    finally show ?thesis .
  qed
  show ?thesis
  proof (cases "x = 0")
    case True
    then show ?thesis by simp
  next
    case False
    show ?thesis
    proof (cases "0 < x")
      case True
      then show ?thesis using pos [OF True] by simp
    next
      case False
      with \<open>x \<noteq> 0\<close> have n: "0 < - x" by simp
      have "\<bar>double (- x) - (- x)\<bar> \<le> (- x) / 2 ^ 53" using n by (rule pos)
      moreover have "\<bar>double (- x) - (- x)\<bar> = \<bar>double x - x\<bar>"
        by (simp add: double_neg abs_minus_commute)
      moreover have "\<bar>x\<bar> = - x" using n by simp
      ultimately show ?thesis by simp
    qed
  qed
qed

subsection \<open>Evaluation on the concrete system\<close>

lemmas demo_defs = start_simulation_def init_def get_content_def add_interaction_def
  next_interaction_id_def SIMULATION_TIMES_def randint_def simulation_key_def str_int_def
  str_nat.simps get_action_verb_def demo_db_def demo_simulation_def demo_interaction_def Let_def

lemma demo_started_eq:
  "demo_started =
     \<lparr>db = demo_db\<lparr>user_interactions := [(1, demo_interaction)]\<rparr>,
      active_simulations = [(''7_book_1'', demo_simulation)]\<rparr>"
  by (simp add: demo_started_def demo_defs)

lemma set_update_subset: "set (AList.update k v al) \<subseteq> insert (k, v) (set al)"
  by (induction al) auto

lemma set_delete_subset: "set (AList.delete k al) \<subseteq> set al"
  by (induction al) auto

lemma fold_max_ge: "m \<le> fold (\<lambda>(k, _) m. max m (k + 1)) rows (m::int)"
proof (induction rows arbitrary: m)
  case Nil
  show ?case by simp
next
  case (Cons p rows)
  obtain k v where p: "p = (k, v)" by (cases p)
  have "m \<le> max m (k + 1)" by simp
  also have "\<dots> \<le> fold (\<lambda>(k, _) m. max m (k + 1)) rows (max m (k + 1))" by (rule Cons.IH)
  finally show ?case by (simp add: p)
qed

lemma fold_max_fresh:
  "(k, v) \<in> set rows \<Longrightarrow> k < fold (\<lambda>(k, _) m. max m (k + 1)) rows (m::int)"
proof (induction rows arbitrary: m)
  case Nil
  then show ?case by simp
next
  case (Cons p rows)
  obtain k' v' where p: "p = (k', v')" by (cases p)
  show ?case
  proof (cases "(k, v) = p")
    case True
    then have "k + 1 \<le> max m (k' + 1)" using p by simp
    also have "\<dots> \<le> fold (\<lambda>(k, _) m. max m (k + 1)) rows (max m (k' + 1))" by (rule fold_max_ge)
    finally show ?thesis by (simp add: p)
  next
    case False
    with Cons.prems have "(k, v) \<in> set rows" by simp
    from Cons.IH [OF this] show ?thesis by (simp add: p)
  qed
qed

lemma next_interaction_id_fresh: "(k, v) \<in> set rows \<Longrightarrow> k < next_interaction_id rows"
  unfolding next_interaction_id_def by (rule fold_max_fresh)

lemma next_interaction_id_unused: "map_of rows (next_interaction_id rows) = None"
proof (cases "map_of rows (next_interaction_id rows)")
  case None
  then show ?thesis .
next
  case (Some v)
  then have "(next_interaction_id rows, v) \<in> set rows" by (rule map_of_SomeD)
  then have "next_interaction_id rows < next_interaction_id rows" by (rule next_interaction_id_fresh)
  then show ?thesis by simp
qed

lemma SIMULATION_TIMES_cases:
  "SIMULATION_TIMES ct = Some (lo, hi) \<Longrightarrow>
     (ct = ''book'' \<and> lo = 30 \<and> hi = 180) \<or> (ct = ''movie'' \<and> lo = 20 \<and> hi = 60)
     \<or> (ct = ''game'' \<and> lo = 45 \<and> hi = 300)"
  by (auto simp: SIMULATION_TIMES_def split: if_splits)

lemma SIMULATION_TIMES_ordered: "SIMULATION_TIMES ct = Some (lo, hi) \<Longrightarrow> 0 < lo \<and> lo \<le> hi"
  by (drule SIMULATION_TIMES_cases) auto

lemma SIMULATION_EVENTS_known:
  "SIMULATION_TIMES ct = Some p \<Longrightarrow> \<exists>evs. SIMULATION_EVENTS ct = Some evs"
  by (auto simp: SIMULATION_TIMES_def SIMULATION_EVENTS_def split: if_splits)

lemma get_content_known:
  "get_content d ct cid = Some c \<Longrightarrow> \<exists>lo hi. SIMULATION_TIMES ct = Some (lo, hi)"
  by (auto simp: SIMULATION_TIMES_def get_content_def split: if_splits)

lemma randint_range: "a \<le> b \<Longrightarrow> a \<le> randint a b rnd \<and> randint a b rnd \<le> b"
proof -
  assume ab: "a \<le> b"
  then have pos: "0 < nat (b - a + 1)" by simp
  have "rnd mod nat (b - a + 1) < nat (b - a + 1)" using pos by (rule mod_less_divisor)
  then have "int (rnd mod nat (b - a + 1)) < b - a + 1" using ab by linarith
  then show ?thesis unfolding randint_def by simp
qed

lemma randint_onto:
  assumes "a \<le> v" and "v \<le> b"
  shows "randint a b (nat (v - a)) = v"
proof -
  have "nat (v - a) < nat (b - a + 1)" using assms by linarith
  then have "nat (v - a) mod nat (b - a + 1) = nat (v - a)" by simp
  then show ?thesis unfolding randint_def using assms by simp
qed

lemma valid_simulation_total_time: "valid_simulation sim \<Longrightarrow> 0 < sim_total_time sim"
  by (auto simp: valid_simulation_def split: option.splits dest: SIMULATION_TIMES_ordered)

lemma valid_simulation_events: "valid_simulation sim \<Longrightarrow> length (sim_events sim) \<le> 3"
  by (auto simp: valid_simulation_def split: option.splits)

lemma valid_simulation_EVENTS:
  "valid_simulation sim \<Longrightarrow> \<exists>evs. SIMULATION_EVENTS (sim_content_type sim) = Some evs"
  by (auto simp: valid_simulation_def split: option.splits dest: SIMULATION_EVENTS_known)

lemma wf_service_live:
  "wf_service self \<Longrightarrow> map_of (active_simulations self) sid = Some sim \<Longrightarrow> valid_simulation sim"
  by (auto simp: wf_service_def list_all_iff dest!: map_of_SomeD)

subsection \<open>Arithmetic of the progress percentage\<close>

lemma double_exact_div:
  assumes "\<bar>m\<bar> \<le> 2 ^ 53"
  shows "double (of_int m / 2 ^ n) = of_int m / 2 ^ n"
proof -
  have "(2::rat) powi (- int n) = 1 / 2 ^ n"
    by (simp add: power_int_minus divide_inverse)
  then show ?thesis using double_exact [OF assms, of "- int n"] by simp
qed

lemma float_of_int_exact: "\<bar>m\<bar> \<le> 2 ^ 53 \<Longrightarrow> float_of_int m = of_int m"
  by (simp add: float_of_int_def double_of_int)

lemma valid_simulation_total_time_le: "valid_simulation sim \<Longrightarrow> sim_total_time sim \<le> 300"
  by (auto simp: valid_simulation_def split: option.splits dest!: SIMULATION_TIMES_cases)

lemma py_int_nonneg: "0 \<le> x \<Longrightarrow> py_int x = \<lfloor>x\<rfloor>"
  by (simp add: py_int_def)

lemma py_int_ge_100: "(100 \<le> py_int x) = (100 \<le> x)"
proof (cases "0 \<le> x")
  case True
  then show ?thesis by (simp add: py_int_def le_floor_iff)
next
  case False
  then have "0 \<le> \<lfloor>- x\<rfloor>" by simp
  then have a: "\<not> 100 \<le> - \<lfloor>- x\<rfloor>" by linarith
  have b: "\<not> 100 \<le> x" using False by simp
  show ?thesis using False a b by (simp add: py_int_def)
qed

text \<open>The float the percentage is truncated from, for \<open>us\<close> elapsed microseconds and a
  planned time of \<open>T\<close> seconds.\<close>

lemma percent_ge_100:
  assumes T: "0 < T" "T \<le> 300"
  shows "(100 \<le> float_mul (float_div (total_seconds us) (float_of_int T)) (float_of_int 100))
           = (T * 1000000 \<le> us)"
proof -
  let ?E = "double (of_int us / 1000000)"
  let ?Q = "double (?E / of_int T)"
  let ?P = "double (?Q * 100)"
  have ft: "float_of_int T = of_int T" using T by (intro float_of_int_exact) simp
  have f100: "float_of_int 100 = 100" using float_of_int_exact [of 100] by simp
  have P: "float_mul (float_div (total_seconds us) (float_of_int T)) (float_of_int 100) = ?P"
    by (simp add: float_mul_def float_div_def total_seconds_def int_truediv_def ft f100)
  have Tr: "(0::rat) < of_int T" using T by simp
  have d1: "double 1 = 1" using double_of_int [of 1] by simp
  have d100: "double 100 = 100" using double_of_int [of 100] by simp
  have dT: "double (of_int T) = of_int T" using T by (intro double_of_int) simp
  show ?thesis
  proof (cases "T * 1000000 \<le> us")
    case True
    then have "(of_int (T * 1000000) :: rat) \<le> of_int us" by (simp only: of_int_le_iff)
    then have "(of_int T :: rat) \<le> of_int us / 1000000" by simp
    then have "double (of_int T) \<le> ?E" by (rule double_mono)
    then have "of_int T \<le> ?E" by (simp only: dT)
    then have "1 \<le> ?E / of_int T" using Tr by (simp add: le_divide_eq)
    then have "double 1 \<le> ?Q" by (rule double_mono)
    then have "1 \<le> ?Q" by (simp only: d1)
    then have "100 \<le> ?Q * 100" by simp
    then have "double 100 \<le> ?P" by (rule double_mono)
    then have "100 \<le> ?P" by (simp only: d100)
    then show ?thesis using True by (simp only: P)
  next
    case False
    let ?m1 = "T * 1048576 - 1"
    have i1: "us * 1048576 \<le> ?m1 * 1000000" using False by simp
    then have "(of_int (us * 1048576) :: rat) \<le> of_int (?m1 * 1000000)"
      by (simp only: of_int_le_iff)
    then have a: "(of_int us :: rat) / 1000000 \<le> of_int ?m1 / 1048576" by simp
    have m1: "\<bar>?m1\<bar> \<le> 2 ^ 53" using T by simp
    have e1: "double (of_int ?m1 / 1048576) = of_int ?m1 / 1048576"
      using double_exact_div [OF m1, of 20] by simp
    have E: "?E \<le> of_int ?m1 / 1048576" using double_mono [OF a] by (simp only: e1)
    have i2: "?m1 * 536870912 \<le> 536870911 * 1048576 * T" using T by simp
    then have "(of_int (?m1 * 536870912) :: rat) \<le> of_int (536870911 * 1048576 * T)"
      by (simp only: of_int_le_iff)
    then have b: "(of_int ?m1 :: rat) / 1048576 / of_int T \<le> 536870911 / 536870912"
      using Tr by (simp add: field_simps)
    have Tn: "(0::rat) \<le> of_int T" using Tr by simp
    have "?E / of_int T \<le> of_int ?m1 / 1048576 / of_int T"
      using E Tn by (rule divide_right_mono)
    then have c: "?E / of_int T \<le> 536870911 / 536870912" using b by (rule order_trans)
    have e2: "double (536870911 / 536870912) = 536870911 / 536870912"
      using double_exact_div [of 536870911 29] by simp
    have Q: "?Q \<le> 536870911 / 536870912" using double_mono [OF c] by (simp only: e2)
    then have d: "?Q * 100 \<le> 838860799 / 8388608" by simp
    have e3: "double (838860799 / 8388608) = 838860799 / 8388608"
      using double_exact_div [of 838860799 23] by simp
    have "?P \<le> 838860799 / 8388608" using double_mono [OF d] by (simp only: e3)
    then have "\<not> 100 \<le> ?P" by simp
    then show ?thesis using False by (simp only: P)
  qed
qed

lemma progress_of_le_100: "progress_of sim now \<le> 100"
  by (simp add: progress_of_def)

lemma progress_of_completed:
  assumes "0 < sim_total_time sim" and "sim_total_time sim \<le> 300"
  shows "(100 \<le> progress_of sim now)
           = (of_int (sim_total_time sim) \<le> (of_int (now - sim_start_time sim) :: rat) / 1000000)"
proof -
  have "(100 \<le> progress_of sim now)
          = (sim_total_time sim * 1000000 \<le> now - sim_start_time sim)"
    by (simp add: progress_of_def py_int_ge_100 percent_ge_100 [OF assms])
  also have "\<dots> = ((of_int (sim_total_time sim * 1000000) :: rat)
                      \<le> of_int (now - sim_start_time sim))"
    by (simp only: of_int_le_iff)
  also have "\<dots> = (of_int (sim_total_time sim)
                      \<le> (of_int (now - sim_start_time sim) :: rat) / 1000000)"
    by simp
  finally show ?thesis .
qed

lemma double_bounds_nonneg:
  assumes "0 \<le> x"
  shows "x * (1 - 1 / 2 ^ 53) \<le> double x" and "double x \<le> x * (1 + 1 / 2 ^ 53)"
proof -
  define e where "e = x / 2 ^ 53"
  have "\<bar>double x - x\<bar> \<le> e" using double_error [of x] assms by (simp add: e_def)
  then have a: "x - e \<le> double x" and b: "double x \<le> x + e" by linarith+
  have "x * (1 - 1 / 2 ^ 53) = x - e" by (simp add: e_def algebra_simps)
  then show "x * (1 - 1 / 2 ^ 53) \<le> double x" using a by (simp only:)
  have "x * (1 + 1 / 2 ^ 53) = x + e" by (simp add: e_def algebra_simps)
  then show "double x \<le> x * (1 + 1 / 2 ^ 53)" using b by (simp only:)
qed

text \<open>Three roundings move the percentage by a relative error below \<open>2^-51\<close>.\<close>

lemma percent_near:
  assumes T: "0 < T" "T \<le> 300" and us: "0 \<le> us"
  shows "of_int us / 1000000 / of_int T * 100 * (1 - 1 / 2 ^ 51)
           \<le> float_mul (float_div (total_seconds us) (float_of_int T)) (float_of_int 100)"
    and "float_mul (float_div (total_seconds us) (float_of_int T)) (float_of_int 100)
           \<le> of_int us / 1000000 / of_int T * 100 * (1 + 1 / 2 ^ 51)"
    and "0 \<le> float_mul (float_div (total_seconds us) (float_of_int T)) (float_of_int 100)"
proof -
  define a :: rat where "a = of_int us / 1000000"
  define t :: rat where "t = of_int T"
  define k :: rat where "k = 1 + 1 / 2 ^ 53"
  define j :: rat where "j = 1 - 1 / 2 ^ 53"
  define E where "E = double a"
  define Q where "Q = double (E / t)"
  define P where "P = double (Q * 100)"
  have ft: "float_of_int T = of_int T" using T by (intro float_of_int_exact) simp
  have f100: "float_of_int 100 = 100" using float_of_int_exact [of 100] by simp
  have P: "float_mul (float_div (total_seconds us) (float_of_int T)) (float_of_int 100) = P"
    by (simp add: float_mul_def float_div_def total_seconds_def int_truediv_def ft f100
        P_def Q_def E_def a_def t_def)
  have t: "0 < t" using T by (simp add: t_def)
  have a: "0 \<le> a" using us by (simp add: a_def)
  have k: "0 \<le> k" and j: "0 \<le> j" by (simp_all add: k_def j_def)
  have E0: "0 \<le> E" unfolding E_def using a by (rule double_nonneg)
  have b0: "0 \<le> E / t" using E0 t by simp
  have Q0: "0 \<le> Q" unfolding Q_def using b0 by (rule double_nonneg)
  have c0: "0 \<le> Q * 100" using Q0 by simp
  have P0: "0 \<le> P" unfolding P_def using c0 by (rule double_nonneg)
  have E_lo: "a * j \<le> E" and E_hi: "E \<le> a * k"
    unfolding E_def j_def k_def using a by (rule double_bounds_nonneg)+
  have Q_lo: "E / t * j \<le> Q" and Q_hi: "Q \<le> E / t * k"
    unfolding Q_def j_def k_def using b0 by (rule double_bounds_nonneg)+
  have P_lo: "Q * 100 * j \<le> P" and P_hi: "P \<le> Q * 100 * k"
    unfolding P_def j_def k_def using c0 by (rule double_bounds_nonneg)+
  have "a / t * 100 * (j * j * j) = a * j / t * j * 100 * j" by simp
  also have "\<dots> \<le> E / t * j * 100 * j"
    using E_lo t j by (intro mult_right_mono divide_right_mono) simp_all
  also have "\<dots> \<le> Q * 100 * j"
    using Q_lo j by (intro mult_right_mono) simp_all
  also have "\<dots> \<le> P" by (rule P_lo)
  finally have lo: "a / t * 100 * (j * j * j) \<le> P" .
  have "P \<le> Q * 100 * k" by (rule P_hi)
  also have "\<dots> \<le> E / t * k * 100 * k"
    using Q_hi k by (intro mult_right_mono) simp_all
  also have "\<dots> \<le> a * k / t * k * 100 * k"
    using E_hi t k by (intro mult_right_mono divide_right_mono) simp_all
  also have "\<dots> = a / t * 100 * (k * k * k)" by simp
  finally have hi: "P \<le> a / t * 100 * (k * k * k)" .
  have v0: "0 \<le> a / t * 100" using a t by simp
  have j3: "1 - 1 / 2 ^ 51 \<le> j * j * j" by (simp add: j_def)
  have k3: "k * k * k \<le> 1 + 1 / 2 ^ 51" by (simp add: k_def)
  have "a / t * 100 * (1 - 1 / 2 ^ 51) \<le> a / t * 100 * (j * j * j)"
    using v0 j3 by (rule mult_left_mono [rotated])
  then have "a / t * 100 * (1 - 1 / 2 ^ 51) \<le> P" using lo by (rule order_trans)
  then show "of_int us / 1000000 / of_int T * 100 * (1 - 1 / 2 ^ 51)
           \<le> float_mul (float_div (total_seconds us) (float_of_int T)) (float_of_int 100)"
    by (simp only: P a_def t_def)
  have "a / t * 100 * (k * k * k) \<le> a / t * 100 * (1 + 1 / 2 ^ 51)"
    using v0 k3 by (rule mult_left_mono [rotated])
  with hi have "P \<le> a / t * 100 * (1 + 1 / 2 ^ 51)" by (rule order_trans)
  then show "float_mul (float_div (total_seconds us) (float_of_int T)) (float_of_int 100)
           \<le> of_int us / 1000000 / of_int T * 100 * (1 + 1 / 2 ^ 51)"
    by (simp only: P a_def t_def)
  show "0 \<le> float_mul (float_div (total_seconds us) (float_of_int T)) (float_of_int 100)"
    using P0 by (simp only: P)
qed

text \<open>Below 100 the truncated float is the exact floor, except that at an instant where the
  exact percentage is a whole number it can be one less.\<close>

lemma percent_floor:
  assumes T: "0 < T" "T \<le> 300" and us: "0 \<le> us" and lt: "us < T * 1000000"
  shows "\<lfloor>of_int us / 1000000 / of_int T * 100 :: rat\<rfloor> - 1
           \<le> py_int (float_mul (float_div (total_seconds us) (float_of_int T)) (float_of_int 100))"
    and "py_int (float_mul (float_div (total_seconds us) (float_of_int T)) (float_of_int 100))
           \<le> \<lfloor>of_int us / 1000000 / of_int T * 100 :: rat\<rfloor>"
    and "(of_int us / 1000000 / of_int T * 100 :: rat) \<notin> \<int> \<Longrightarrow>
           py_int (float_mul (float_div (total_seconds us) (float_of_int T)) (float_of_int 100))
             = \<lfloor>of_int us / 1000000 / of_int T * 100 :: rat\<rfloor>"
proof -
  define v :: rat where "v = of_int us / 1000000 / of_int T * 100"
  define P where "P = float_mul (float_div (total_seconds us) (float_of_int T)) (float_of_int 100)"
  define D where "D = T * 10000"
  define n where "n = us div D"
  define g :: rat where "g = 1 / of_int D"
  have D: "0 < D" "D \<le> 3000000" using T by (simp_all add: D_def)
  have Dr: "(0::rat) < of_int D" using D by simp
  have v: "v = of_int us / of_int D" using T by (simp add: v_def D_def)
  have n: "\<lfloor>v\<rfloor> = n" by (simp add: v n_def floor_divide_of_int_eq)
  have v0: "0 \<le> v" using us Dr by (simp add: v)
  have v100: "v < 100"
  proof -
    have "(of_int us :: rat) < of_int (T * 1000000)" using lt by (simp only: of_int_less_iff)
    then show ?thesis using T by (simp add: v_def field_simps)
  qed
  have lo: "v * (1 - 1 / 2 ^ 51) \<le> P" and hi: "P \<le> v * (1 + 1 / 2 ^ 51)" and P0: "0 \<le> P"
    unfolding v_def P_def using T us by (rule percent_near)+
  have g: "1 / 3000000 \<le> g"
  proof -
    have "(of_int D :: rat) \<le> of_int 3000000" using D(2) by (simp only: of_int_le_iff)
    then show ?thesis using Dr by (simp add: g_def field_simps)
  qed
  have d: "v / 2 ^ 51 < g"
  proof -
    have "v / 2 ^ 51 < 100 / 2 ^ 51" using v100 by simp
    also have "\<dots> < (1::rat) / 3000000" by simp
    finally show ?thesis using g by simp
  qed
  have lo': "v - g < P" using lo d by (simp add: algebra_simps)
  have hi': "P < v + g" using hi d by (simp add: algebra_simps)
  have py: "py_int P = \<lfloor>P\<rfloor>" using P0 by (rule py_int_nonneg)
  have g1: "g \<le> 1"
  proof -
    have "1 \<le> D" using D(1) by simp
    then have "(of_int 1 :: rat) \<le> of_int D" by (simp only: of_int_le_iff)
    then show ?thesis using Dr by (simp add: g_def)
  qed
  have md: "0 \<le> us mod D" "us mod D < D" using D(1) by simp_all
  have dm: "us = n * D + us mod D" by (simp add: n_def)
  have vn: "of_int n \<le> v" using n by (metis of_int_floor_le)
  have up: "v + g \<le> of_int n + 1"
  proof -
    have "us + 1 \<le> (n + 1) * D" using dm md(2) by (simp add: algebra_simps)
    then have "(of_int (us + 1) :: rat) \<le> of_int ((n + 1) * D)" by (simp only: of_int_le_iff)
    then have "(of_int us + 1 :: rat) \<le> (of_int n + 1) * of_int D" by simp
    then have "(of_int us + 1) / of_int D \<le> (of_int n + 1 :: rat)"
      using Dr by (simp add: divide_le_eq)
    then show ?thesis by (simp add: v g_def add_divide_distrib)
  qed
  have a1: "of_int (n - 1) \<le> P"
  proof -
    have "of_int n - 1 \<le> v - g" using vn g1 by simp
    then show ?thesis using lo' by simp
  qed
  have a2: "P < of_int n + 1" using hi' up by simp
  have f1: "n - 1 \<le> \<lfloor>P\<rfloor>" using a1 by (simp only: le_floor_iff)
  have "P < of_int (n + 1)" using a2 by simp
  then have "\<lfloor>P\<rfloor> < n + 1" by (simp only: floor_less_iff)
  then have f2: "\<lfloor>P\<rfloor> \<le> n" by simp
  show "\<lfloor>of_int us / 1000000 / of_int T * 100 :: rat\<rfloor> - 1
           \<le> py_int (float_mul (float_div (total_seconds us) (float_of_int T)) (float_of_int 100))"
    using f1 py n by (simp only: v_def P_def)
  show "py_int (float_mul (float_div (total_seconds us) (float_of_int T)) (float_of_int 100))
           \<le> \<lfloor>of_int us / 1000000 / of_int T * 100 :: rat\<rfloor>"
    using f2 py n by (simp only: v_def P_def)
  show "py_int (float_mul (float_div (total_seconds us) (float_of_int T)) (float_of_int 100))
             = \<lfloor>of_int us / 1000000 / of_int T * 100 :: rat\<rfloor>"
    if frac: "(of_int us / 1000000 / of_int T * 100 :: rat) \<notin> \<int>"
  proof -
    have "us mod D \<noteq> 0"
    proof
      assume "us mod D = 0"
      then have "us = n * D" using dm by simp
      then have "v = of_int n" using Dr by (simp add: v)
      then have "v \<in> \<int>" by simp
      with frac show False by (simp add: v_def)
    qed
    then have "n * D + 1 \<le> us" using dm md(1) by linarith
    then have "(of_int (n * D + 1) :: rat) \<le> of_int us" by (simp only: of_int_le_iff)
    then have "(of_int n * of_int D + 1 :: rat) \<le> of_int us" by simp
    then have "(of_int n * of_int D + 1) / of_int D \<le> (of_int us :: rat) / of_int D"
      using Dr by (simp add: divide_right_mono)
    then have "of_int n + g \<le> v" using Dr by (simp add: v g_def add_divide_distrib)
    then have "of_int n \<le> P" using lo' by simp
    then have "n \<le> \<lfloor>P\<rfloor>" by (simp only: le_floor_iff)
    with f2 have "\<lfloor>P\<rfloor> = n" by simp
    then show ?thesis using py n by (simp only: v_def P_def)
  qed
qed

lemma progress_of_floor:
  assumes T: "0 < sim_total_time sim" "sim_total_time sim \<le> 300"
    and clock: "sim_start_time sim \<le> now"
  shows "min 100 \<lfloor>of_int (now - sim_start_time sim) / 1000000
                    / of_int (sim_total_time sim) * 100 :: rat\<rfloor> - 1
           \<le> progress_of sim now"
    and "progress_of sim now
           \<le> min 100 \<lfloor>of_int (now - sim_start_time sim) / 1000000
                         / of_int (sim_total_time sim) * 100 :: rat\<rfloor>"
    and "(of_int (now - sim_start_time sim) / 1000000
            / of_int (sim_total_time sim) * 100 :: rat) \<notin> \<int> \<Longrightarrow>
         progress_of sim now
           = min 100 \<lfloor>of_int (now - sim_start_time sim) / 1000000
                         / of_int (sim_total_time sim) * 100 :: rat\<rfloor>"
proof -
  define us where "us = now - sim_start_time sim"
  define T where "T = sim_total_time sim"
  define v :: rat where "v = of_int us / 1000000 / of_int T * 100"
  define P where "P = float_mul (float_div (total_seconds us) (float_of_int T)) (float_of_int 100)"
  have T: "0 < T" "T \<le> 300" using assms(1,2) by (simp_all add: T_def)
  have us: "0 \<le> us" using clock by (simp add: us_def)
  have pr: "progress_of sim now = min 100 (py_int P)"
    by (simp add: progress_of_def P_def us_def T_def)
  have goal: "min 100 \<lfloor>v\<rfloor> - 1 \<le> min 100 (py_int P) \<and> min 100 (py_int P) \<le> min 100 \<lfloor>v\<rfloor>
      \<and> (v \<notin> \<int> \<longrightarrow> min 100 (py_int P) = min 100 \<lfloor>v\<rfloor>)"
  proof (cases "us < T * 1000000")
    case True
    have a: "\<lfloor>v\<rfloor> - 1 \<le> py_int P" and b: "py_int P \<le> \<lfloor>v\<rfloor>"
      unfolding v_def P_def using T us True by (rule percent_floor)+
    have c: "py_int P = \<lfloor>v\<rfloor>" if "v \<notin> \<int>"
      using percent_floor(3) [OF T us True] that unfolding v_def P_def by blast
    show ?thesis using a b c by auto
  next
    case False
    then have ge: "T * 1000000 \<le> us" by simp
    then have "100 \<le> P" using percent_ge_100 [OF T, of us] by (simp only: P_def)
    then have p: "100 \<le> py_int P" by (simp only: py_int_ge_100)
    have "(of_int (T * 1000000) :: rat) \<le> of_int us" using ge by (simp only: of_int_le_iff)
    then have "100 \<le> v" using T by (simp add: v_def field_simps)
    then have "100 \<le> \<lfloor>v\<rfloor>" by (simp add: le_floor_iff)
    then show ?thesis using p by simp
  qed
  have g: "min 100 \<lfloor>of_int (now - sim_start_time sim) / 1000000
                    / of_int (sim_total_time sim) * 100 :: rat\<rfloor> - 1
           \<le> progress_of sim now
     \<and> progress_of sim now
           \<le> min 100 \<lfloor>of_int (now - sim_start_time sim) / 1000000
                         / of_int (sim_total_time sim) * 100 :: rat\<rfloor>
     \<and> ((of_int (now - sim_start_time sim) / 1000000
            / of_int (sim_total_time sim) * 100 :: rat) \<notin> \<int> \<longrightarrow>
         progress_of sim now
           = min 100 \<lfloor>of_int (now - sim_start_time sim) / 1000000
                         / of_int (sim_total_time sim) * 100 :: rat\<rfloor>)"
    using goal unfolding pr v_def us_def T_def .
  show "min 100 \<lfloor>of_int (now - sim_start_time sim) / 1000000
                    / of_int (sim_total_time sim) * 100 :: rat\<rfloor> - 1
           \<le> progress_of sim now"
    using g by blast
  show "progress_of sim now
           \<le> min 100 \<lfloor>of_int (now - sim_start_time sim) / 1000000
                         / of_int (sim_total_time sim) * 100 :: rat\<rfloor>"
    using g by blast
  show "progress_of sim now
           = min 100 \<lfloor>of_int (now - sim_start_time sim) / 1000000
                         / of_int (sim_total_time sim) * 100 :: rat\<rfloor>"
    if "(of_int (now - sim_start_time sim) / 1000000
            / of_int (sim_total_time sim) * 100 :: rat) \<notin> \<int>"
    using g that by blast
qed

lemma get_simulation_progress_live:
  assumes live: "map_of (active_simulations self) sid = Some sim"
    and valid: "valid_simulation sim"
  shows "\<exists>rep self'. get_simulation_progress self now u k sid = (Inr rep, self')
            \<and> progress rep = progress_of sim now
            \<and> completed rep = (100 \<le> progress_of sim now)"
proof -
  have t: "sim_total_time sim \<noteq> 0" using valid_simulation_total_time [OF valid] by simp
  obtain evs where evs: "SIMULATION_EVENTS (sim_content_type sim) = Some evs"
    using valid_simulation_EVENTS [OF valid] by blast
  show ?thesis
    by (simp add: get_simulation_progress_def live t evs Let_def)
qed

text \<open>
  Claim C1, as amended. For a live simulation \<^verbatim>\<open>get_simulation_progress\<close> returns normally;
  its \<open>progress\<close> is \<open>min 100 (int ((elapsed / total_time) * 100))\<close> with the quotient and the
  product rounded as floats and \<open>int\<close> truncating towards zero. It never exceeds 100, and
  \<open>completed\<close> holds exactly when it is at least 100, which is exactly when the elapsed time
  is at least the planned time. A clock reading before the start is admitted: the negative
  percentage is truncated towards zero. When the clock reading is not before the start, the
  progress is the exact \<open>min 100 (floor (elapsed / total_time * 100))\<close> or one less, and it is
  the exact value whenever the exact percentage is not a whole number.
\<close>

theorem progress_value:
  assumes live: "map_of (active_simulations self) sid = Some sim"
    and valid: "valid_simulation sim"
  shows "\<exists>rep self'. get_simulation_progress self now u k sid = (Inr rep, self')
     \<and> progress rep
         = min 100 (py_int (float_mul
                     (float_div (total_seconds (now - sim_start_time sim))
                        (float_of_int (sim_total_time sim)))
                     (float_of_int 100)))
     \<and> progress rep \<le> 100
     \<and> (completed rep \<longleftrightarrow> 100 \<le> progress rep)
     \<and> (completed rep \<longleftrightarrow>
          of_int (sim_total_time sim) \<le> (of_int (now - sim_start_time sim) :: rat) / 1000000)
     \<and> (sim_start_time sim \<le> now \<longrightarrow>
          min 100 \<lfloor>of_int (now - sim_start_time sim) / 1000000
                      / of_int (sim_total_time sim) * 100 :: rat\<rfloor> - 1
            \<le> progress rep
          \<and> progress rep
              \<le> min 100 \<lfloor>of_int (now - sim_start_time sim) / 1000000
                            / of_int (sim_total_time sim) * 100 :: rat\<rfloor>
          \<and> ((of_int (now - sim_start_time sim) / 1000000
                 / of_int (sim_total_time sim) * 100 :: rat) \<notin> \<int> \<longrightarrow>
               progress rep
                 = min 100 \<lfloor>of_int (now - sim_start_time sim) / 1000000
                               / of_int (sim_total_time sim) * 100 :: rat\<rfloor>))"
proof -
  have t: "0 < sim_total_time sim" using valid by (rule valid_simulation_total_time)
  have t': "sim_total_time sim \<le> 300" using valid by (rule valid_simulation_total_time_le)
  obtain rep self' where r: "get_simulation_progress self now u k sid = (Inr rep, self')"
    and p: "progress rep = progress_of sim now"
    and c: "completed rep = (100 \<le> progress_of sim now)"
    using get_simulation_progress_live [OF live valid] by blast
  have p': "progress rep
         = min 100 (py_int (float_mul
                     (float_div (total_seconds (now - sim_start_time sim))
                        (float_of_int (sim_total_time sim)))
                     (float_of_int 100)))"
    using p by (simp only: progress_of_def)
  have le: "progress rep \<le> 100"
    using p progress_of_le_100 [of sim now] by (simp only:)
  have c1: "completed rep \<longleftrightarrow> 100 \<le> progress rep"
    using c p by (simp only:)
  have c2: "completed rep \<longleftrightarrow>
      of_int (sim_total_time sim) \<le> (of_int (now - sim_start_time sim) :: rat) / 1000000"
    using c progress_of_completed [OF t t', of now] by (simp only:)
  have fl: "min 100 \<lfloor>of_int (now - sim_start_time sim) / 1000000
                      / of_int (sim_total_time sim) * 100 :: rat\<rfloor> - 1
            \<le> progress rep
          \<and> progress rep
              \<le> min 100 \<lfloor>of_int (now - sim_start_time sim) / 1000000
                            / of_int (sim_total_time sim) * 100 :: rat\<rfloor>
          \<and> ((of_int (now - sim_start_time sim) / 1000000
                 / of_int (sim_total_time sim) * 100 :: rat) \<notin> \<int> \<longrightarrow>
               progress rep
                 = min 100 \<lfloor>of_int (now - sim_start_time sim) / 1000000
                               / of_int (sim_total_time sim) * 100 :: rat\<rfloor>)"
    if clock: "sim_start_time sim \<le> now"
    using progress_of_floor [OF t t' clock] by (simp only: p) blast
  show ?thesis using r p' le c1 c2 fl by blast
qed

lemma demo_live: "map_of (active_simulations demo_started) ''7_book_1'' = Some demo_simulation"
  by (simp add: demo_started_eq)

lemma demo_valid: "valid_simulation demo_simulation"
  by (simp add: valid_simulation_def demo_simulation_def SIMULATION_TIMES_def)

lemma demo_progress_50: "progress_of demo_simulation 21001001 = 50"
  by code_simp

lemma demo_progress_6: "progress_of demo_simulation 2941001 = 6"
  by code_simp

lemma demo_progress_early: "progress_of demo_simulation 1 = 0"
  by code_simp

theorem progress_value_witness:
  "map_of (active_simulations demo_started) ''7_book_1'' = Some demo_simulation
   \<and> valid_simulation demo_simulation
   \<and> sim_start_time demo_simulation \<le> 21001001
   \<and> (\<exists>rep self'. get_simulation_progress demo_started 21001001 (1 / 2) 0 ''7_book_1''
                      = (Inr rep, self')
        \<and> progress rep = 50 \<and> \<not> completed rep)
   \<and> (\<exists>rep self'. get_simulation_progress demo_started 2941001 (1 / 2) 0 ''7_book_1''
                      = (Inr rep, self')
        \<and> progress rep = 6)
   \<and> (\<exists>rep self'. get_simulation_progress demo_started 1 (1 / 2) 0 ''7_book_1''
                      = (Inr rep, self')
        \<and> progress rep = 0 \<and> \<not> completed rep)"
proof -
  have c: "sim_start_time demo_simulation \<le> 21001001" by (simp add: demo_simulation_def)
  have f: "min 100 (py_int (float_mul
                     (float_div (total_seconds (21001001 - sim_start_time demo_simulation))
                        (float_of_int (sim_total_time demo_simulation)))
                     (float_of_int 100))) = 50"
    using demo_progress_50 by (simp only: progress_of_def)
  have g: "min 100 (py_int (float_mul
                     (float_div (total_seconds (2941001 - sim_start_time demo_simulation))
                        (float_of_int (sim_total_time demo_simulation)))
                     (float_of_int 100))) = 6"
    using demo_progress_6 by (simp only: progress_of_def)
  have h: "min 100 (py_int (float_mul
                     (float_div (total_seconds (1 - sim_start_time demo_simulation))
                        (float_of_int (sim_total_time demo_simulation)))
                     (float_of_int 100))) = 0"
    using demo_progress_early by (simp only: progress_of_def)
  from progress_value [OF demo_live demo_valid, of 1 "1 / 2" 0]
  obtain rep3 s3 where d1: "get_simulation_progress demo_started 1 (1 / 2) 0 ''7_book_1''
        = (Inr rep3, s3)"
    and d2: "progress rep3 = 0" and d3: "completed rep3 \<longleftrightarrow> 100 \<le> progress rep3"
    unfolding h by blast
  have d4: "\<not> completed rep3" using d2 d3 by simp
  from progress_value [OF demo_live demo_valid, of 21001001 "1 / 2" 0]
  obtain rep1 s1 where a1: "get_simulation_progress demo_started 21001001 (1 / 2) 0 ''7_book_1''
        = (Inr rep1, s1)"
    and a2: "progress rep1 = 50" and a3: "completed rep1 \<longleftrightarrow> 100 \<le> progress rep1"
    unfolding f by blast
  from progress_value [OF demo_live demo_valid, of 2941001 "1 / 2" 0]
  obtain rep2 s2 where b1: "get_simulation_progress demo_started 2941001 (1 / 2) 0 ''7_book_1''
        = (Inr rep2, s2)"
    and b2: "progress rep2 = 6"
    unfolding g by blast
  have a4: "\<not> completed rep1" using a2 a3 by simp
  show ?thesis using demo_live demo_valid c a1 a2 a4 b1 b2 d1 d2 d4 by blast
qed

text \<open>
  Claim C1 as stated fails: the progress is not always the exact floor. Polled 2.94 seconds
  after the start of a simulation planned for 42 seconds, the operation reports 6, while
  \<open>floor (2.94 / 42 * 100)\<close> is 7.
\<close>

theorem progress_below_exact_floor:
  "fst (get_simulation_progress demo_started 2941001 (1 / 2) 0 ''7_book_1'')
     = Inr \<lparr>progress = 6, completed = False, event = None,
            progress_content_title = ''Dune'', elapsed_time = 2\<rparr>
   \<and> min 100 \<lfloor>of_int (2941001 - sim_start_time demo_simulation) / 1000000
                  / of_int (sim_total_time demo_simulation) * 100 :: rat\<rfloor> = 7"
proof -
  have e: "py_int (total_seconds (2941001 - 1001)) = 2" by code_simp
  have t: "sim_total_time demo_simulation \<noteq> 0" "sim_events demo_simulation = []"
    "sim_content_title demo_simulation = ''Dune''" "sim_start_time demo_simulation = 1001"
    "sim_total_time demo_simulation = 42"
    by (simp_all add: demo_simulation_def)
  have "fst (get_simulation_progress demo_started 2941001 (1 / 2) 0 ''7_book_1'')
     = Inr \<lparr>progress = 6, completed = False, event = None,
            progress_content_title = ''Dune'', elapsed_time = 2\<rparr>"
    using e by (simp add: get_simulation_progress_def demo_live demo_progress_6 t Let_def
        split: option.splits)
  moreover have "min 100 \<lfloor>of_int (2941001 - sim_start_time demo_simulation) / 1000000
                  / of_int (sim_total_time demo_simulation) * 100 :: rat\<rfloor> = 7"
    by (simp add: t)
  ultimately show ?thesis by (rule conjI)
qed

subsection \<open>What each operation does to the session map\<close>

lemma db_update_sessions [simp]:
  "active_simulations (self\<lparr>db := d\<rparr>) = active_simulations self"
  by simp

lemma complete_sessions:
  "active_simulations (snd (complete_simulation self now sid r tags))
     = AList.delete sid (active_simulations self)"
proof (cases "map_of (active_simulations self) sid")
  case None
  then have "sid \<notin> fst ` set (active_simulations self)" by (simp add: map_of_eq_None_iff)
  then show ?thesis using None by (simp add: complete_simulation_def)
next
  case (Some sim)
  then show ?thesis
    by (simp add: complete_simulation_def Let_def split: option.splits prod.splits)
qed

lemma cancel_sessions:
  "active_simulations (snd (cancel_simulation self now sid))
     = AList.delete sid (active_simulations self)"
proof (cases "map_of (active_simulations self) sid")
  case None
  then have "sid \<notin> fst ` set (active_simulations self)" by (simp add: map_of_eq_None_iff)
  then show ?thesis using None by (simp add: cancel_simulation_def)
next
  case (Some sim)
  then show ?thesis
    by (simp add: cancel_simulation_def Let_def split: option.splits)
qed

lemma progress_sessions:
  assumes "map_of (active_simulations self) sid = Some sim"
  shows "active_simulations (snd (get_simulation_progress self now u k sid))
           = active_simulations self
         \<or> (\<exists>ev. active_simulations (snd (get_simulation_progress self now u k sid))
                  = AList.update sid (sim\<lparr>sim_events := sim_events sim @ [ev]\<rparr>)
                      (active_simulations self)
               \<and> 20 < progress_of sim now \<and> length (sim_events sim) < 3 \<and> u < 3 / 10)"
  using assms
  by (auto simp: get_simulation_progress_def Let_def split: option.splits)

lemma progress_sessions_absent:
  assumes "map_of (active_simulations self) sid = None"
  shows "get_simulation_progress self now u k sid
           = (Inl (ValueError ''Simulation not found''), self)"
  using assms by (simp add: get_simulation_progress_def)

lemma start_sessions:
  "active_simulations (snd (start_simulation self now now' rnd uid ct cid))
     = active_simulations self
   \<or> (\<exists>content lo hi.
        get_content (db self) ct cid = Some content \<and> SIMULATION_TIMES ct = Some (lo, hi)
        \<and> active_simulations (snd (start_simulation self now now' rnd uid ct cid))
            = AList.update (simulation_key uid ct cid)
                \<lparr>sim_interaction_id = next_interaction_id (user_interactions (db self)),
                 sim_user_id = uid, sim_content_type = ct, sim_content_id = cid,
                 sim_content_title = title content, sim_start_time = now',
                 sim_total_time = randint lo hi rnd, sim_events = []\<rparr>
                (active_simulations self))"
  by (auto simp: start_simulation_def add_interaction_def Let_def split: option.splits prod.splits)

subsection \<open>The invariant holds in every reachable state\<close>

lemma wf_service_update:
  assumes "wf_service self" and "valid_simulation sim"
    and "active_simulations self' = AList.update key sim (active_simulations self)"
  shows "wf_service self'"
proof -
  have d: "distinct (map fst (active_simulations self'))"
    using assms(1,3) by (simp add: wf_service_def distinct_update)
  have "set (active_simulations self') \<subseteq> insert (key, sim) (set (active_simulations self))"
    using assms(3) set_update_subset by metis
  then have "list_all (\<lambda>(k, sim). valid_simulation sim) (active_simulations self')"
    using assms(1,2) by (auto simp: wf_service_def list_all_iff)
  with d show ?thesis by (simp add: wf_service_def)
qed

lemma wf_service_delete:
  assumes "wf_service self"
    and "active_simulations self' = AList.delete key (active_simulations self)"
  shows "wf_service self'"
proof -
  have d: "distinct (map fst (active_simulations self'))"
    using assms by (simp add: wf_service_def distinct_delete)
  have "set (active_simulations self') \<subseteq> set (active_simulations self)"
    using assms(2) set_delete_subset by metis
  then have "list_all (\<lambda>(k, sim). valid_simulation sim) (active_simulations self')"
    using assms(1) by (auto simp: wf_service_def list_all_iff)
  with d show ?thesis by (simp add: wf_service_def)
qed

lemma wf_service_same:
  "wf_service self \<Longrightarrow> active_simulations self' = active_simulations self \<Longrightarrow> wf_service self'"
  by (simp add: wf_service_def)

lemma wf_init: "wf_service (init d)"
  by (simp add: wf_service_def init_def)

lemma wf_start:
  assumes "wf_service self"
  shows "wf_service (snd (start_simulation self now now' rnd uid ct cid))"
  using start_sessions [of self now now' rnd uid ct cid]
proof (elim disjE exE conjE)
  assume "active_simulations (snd (start_simulation self now now' rnd uid ct cid))
            = active_simulations self"
  with assms show ?thesis by (rule wf_service_same)
next
  fix content lo hi
  assume t: "SIMULATION_TIMES ct = Some (lo, hi)"
    and u: "active_simulations (snd (start_simulation self now now' rnd uid ct cid))
            = AList.update (simulation_key uid ct cid)
                \<lparr>sim_interaction_id = next_interaction_id (user_interactions (db self)),
                 sim_user_id = uid, sim_content_type = ct, sim_content_id = cid,
                 sim_content_title = title content, sim_start_time = now',
                 sim_total_time = randint lo hi rnd, sim_events = []\<rparr>
                (active_simulations self)"
  have "lo \<le> hi" using SIMULATION_TIMES_ordered [OF t] by simp
  then have "lo \<le> randint lo hi rnd \<and> randint lo hi rnd \<le> hi" by (rule randint_range)
  then have "valid_simulation
      \<lparr>sim_interaction_id = next_interaction_id (user_interactions (db self)),
       sim_user_id = uid, sim_content_type = ct, sim_content_id = cid,
       sim_content_title = title content, sim_start_time = now',
       sim_total_time = randint lo hi rnd, sim_events = []\<rparr>"
    by (simp add: valid_simulation_def t)
  with assms show ?thesis using u by (rule wf_service_update)
qed

lemma valid_simulation_append_event:
  "valid_simulation sim \<Longrightarrow> length (sim_events sim) < 3
     \<Longrightarrow> valid_simulation (sim\<lparr>sim_events := sim_events sim @ [ev]\<rparr>)"
  by (auto simp: valid_simulation_def split: option.splits)

lemma wf_progress:
  assumes "wf_service self"
  shows "wf_service (snd (get_simulation_progress self now u k sid))"
proof (cases "map_of (active_simulations self) sid")
  case None
  then show ?thesis using assms by (simp add: progress_sessions_absent)
next
  case (Some sim)
  have v: "valid_simulation sim" using assms Some by (rule wf_service_live)
  from progress_sessions [OF Some, of now u k] show ?thesis
  proof (elim disjE exE conjE)
    assume "active_simulations (snd (get_simulation_progress self now u k sid))
              = active_simulations self"
    with assms show ?thesis by (rule wf_service_same)
  next
    fix ev
    assume l: "length (sim_events sim) < 3"
      and e: "active_simulations (snd (get_simulation_progress self now u k sid))
                = AList.update sid (sim\<lparr>sim_events := sim_events sim @ [ev]\<rparr>)
                    (active_simulations self)"
    have "valid_simulation (sim\<lparr>sim_events := sim_events sim @ [ev]\<rparr>)"
      using v l by (rule valid_simulation_append_event)
    with assms show ?thesis using e by (rule wf_service_update)
  qed
qed

lemma wf_complete:
  "wf_service self \<Longrightarrow> wf_service (snd (complete_simulation self now sid r tags))"
  by (erule wf_service_delete) (rule complete_sessions)

lemma wf_cancel:
  "wf_service self \<Longrightarrow> wf_service (snd (cancel_simulation self now sid))"
  by (erule wf_service_delete) (rule cancel_sessions)

lemma wf_active_loop:
  "wf_service self \<Longrightarrow> wf_service (snd (active_loop env uid items self acc))"
proof (induction items arbitrary: self acc)
  case Nil
  then show ?case by simp
next
  case (Cons item items)
  obtain sim_id sim_data where item: "item = (sim_id, sim_data)" by (cases item)
  show ?case
  proof (cases "sim_user_id sim_data = uid")
    case False
    then show ?thesis using Cons by (simp add: item)
  next
    case True
    obtain now u k where e: "env sim_id = (now, u, k)" by (cases "env sim_id")
    obtain res self' where g: "get_simulation_progress self now u k sim_id = (res, self')"
      by (cases "get_simulation_progress self now u k sim_id")
    have w: "wf_service self'" using wf_progress [OF Cons.prems, of now u k sim_id] g by simp
    show ?thesis
    proof (cases res)
      case (Inl err)
      then show ?thesis using True e g w by (simp add: item)
    next
      case (Inr p)
      then show ?thesis using True e g Cons.IH [OF w] by (simp add: item)
    qed
  qed
qed

lemma wf_active:
  "wf_service self \<Longrightarrow> wf_service (snd (get_active_simulations env self uid))"
  unfolding get_active_simulations_def by (rule wf_active_loop)

lemma reachable_wf: "reachable self \<Longrightarrow> wf_service self"
proof (induction rule: reachable.induct)
  case (r_init d)
  show ?case by (rule wf_init)
next
  case (r_db self d)
  then show ?case by (simp add: wf_service_def)
next
  case (r_start self now now' rnd uid ct cid)
  then show ?case by (simp add: wf_start)
next
  case (r_progress self now u k sid)
  then show ?case by (simp add: wf_progress)
next
  case (r_complete self now sid r tags)
  then show ?case by (simp add: wf_complete)
next
  case (r_cancel self now sid)
  then show ?case by (simp add: wf_cancel)
next
  case (r_active self env uid)
  then show ?case by (simp add: wf_active)
qed

lemma demo_reachable: "reachable demo_started"
  unfolding demo_started_def by (rule r_start) (rule r_init)

subsection \<open>\<^verbatim>\<open>start_simulation\<close>\<close>


lemma start_simulation_missing:
  assumes "get_content (db self) ct cid = None"
  shows "start_simulation self now now' rnd uid ct cid
           = (Inl (ValueError (''Content not found: '' @ ct @ '' '' @ str_int cid)), self)"
  using assms by (simp add: start_simulation_def)

lemma start_simulation_found:
  assumes c: "get_content (db self) ct cid = Some content"
    and t: "SIMULATION_TIMES ct = Some (lo, hi)"
  shows "start_simulation self now now' rnd uid ct cid =
     (Inr \<lparr>simulation_id = simulation_key uid ct cid,
           interaction_id = next_interaction_id (user_interactions (db self)),
           estimated_time = randint lo hi rnd,
           content_title = title content,
           message = Start_message (get_action_verb ct) (title content)\<rparr>,
      self\<lparr>db := (db self)\<lparr>user_interactions :=
                    user_interactions (db self)
                      @ [(next_interaction_id (user_interactions (db self)),
                          started_interaction uid ct cid now)]\<rparr>,
           active_simulations :=
             AList.update (simulation_key uid ct cid)
               \<lparr>sim_interaction_id = next_interaction_id (user_interactions (db self)),
                sim_user_id = uid, sim_content_type = ct, sim_content_id = cid,
                sim_content_title = title content, sim_start_time = now',
                sim_total_time = randint lo hi rnd, sim_events = []\<rparr>
               (active_simulations self)\<rparr>)"
  by (simp add: start_simulation_def c t add_interaction_def started_interaction_def Let_def)

lemma query_after_add:
  "map_of (rows @ [(next_interaction_id rows, v)]) (next_interaction_id rows) = Some v"
  by (simp add: map_of_append next_interaction_id_unused map_add_def)

lemma query_old_after_add:
  "map_of rows i = Some r \<Longrightarrow> map_of (rows @ [(k, v)]) i = Some r"
  by (simp add: map_of_append map_add_def)

lemma randint_draw:
  assumes "j < nat (b - a + 1)"
  shows "randint a b j = a + int j"
  using assms by (simp add: randint_def)

lemma randint_unique:
  assumes "a \<le> v" and "v \<le> b"
  shows "\<exists>!j. j < nat (b - a + 1) \<and> randint a b j = v"
proof (rule ex1I [of _ "nat (v - a)"])
  show "nat (v - a) < nat (b - a + 1) \<and> randint a b (nat (v - a)) = v"
    using assms randint_onto [OF assms] by auto
next
  fix j
  assume "j < nat (b - a + 1) \<and> randint a b j = v"
  then have "a + int j = v" using randint_draw [of j b a] by simp
  then show "j = nat (v - a)" by simp
qed

text \<open>
  Claim C3. \<^verbatim>\<open>start_simulation\<close> raises the "Content not found" \<^verbatim>\<open>ValueError\<close> exactly when
  the catalog has no such item, and then leaves the whole state (session map and ledger) as it
  was. When the item exists the call returns normally; the ledger grows by exactly one row,
  under a key that was unused, with \<open>interaction_type = started\<close>, \<open>progress_percent = 0\<close> and
  \<open>start_date = now\<close>; the planned time reported and stored in the session lies in the
  configured range \<open>[lo, hi]\<close> of the content type. The planned time is \<open>lo\<close> plus the draw of
  \<^verbatim>\<open>random.randint\<close> reduced to the \<open>hi - lo + 1\<close> values of the range, and the draw is uniform
  on the range: every value \<open>v\<close> of \<open>[lo, hi]\<close> is the planned time reported, and the one stored,
  for exactly one of the \<open>hi - lo + 1\<close> draws, everything else in the report being the same.
\<close>

theorem start_simulation_not_found_or_created:
  "(get_content (db self) ct cid = None \<longrightarrow>
      start_simulation self now now' rnd uid ct cid
        = (Inl (ValueError (''Content not found: '' @ ct @ '' '' @ str_int cid)), self))
   \<and> (get_content (db self) ct cid \<noteq> None \<longrightarrow>
        (\<exists>rep self' lo hi sim.
           start_simulation self now now' rnd uid ct cid = (Inr rep, self')
           \<and> query_interaction (db self) (interaction_id rep) = None
           \<and> user_interactions (db self')
               = user_interactions (db self)
                   @ [(interaction_id rep, started_interaction uid ct cid now)]
           \<and> query_interaction (db self') (interaction_id rep)
               = Some (started_interaction uid ct cid now)
           \<and> interaction_type (started_interaction uid ct cid now) = ''started''
           \<and> progress_percent (started_interaction uid ct cid now) = 0
           \<and> start_date (started_interaction uid ct cid now) = now
           \<and> SIMULATION_TIMES ct = Some (lo, hi)
           \<and> lo \<le> estimated_time rep \<and> estimated_time rep \<le> hi
           \<and> map_of (active_simulations self') (simulation_id rep) = Some sim
           \<and> sim_total_time sim = estimated_time rep
           \<and> sim_interaction_id sim = interaction_id rep
           \<and> estimated_time rep = lo + int (rnd mod nat (hi - lo + 1))
           \<and> (\<forall>v. lo \<le> v \<and> v \<le> hi \<longrightarrow>
                 (\<exists>!j. j < nat (hi - lo + 1)
                    \<and> fst (start_simulation self now now' j uid ct cid)
                        = Inr (rep\<lparr>estimated_time := v\<rparr>)
                    \<and> map_of (active_simulations
                                 (snd (start_simulation self now now' j uid ct cid)))
                          (simulation_id rep)
                        = Some (sim\<lparr>sim_total_time := v\<rparr>)))))"
proof (intro conjI impI)
  assume "get_content (db self) ct cid = None"
  then show "start_simulation self now now' rnd uid ct cid
        = (Inl (ValueError (''Content not found: '' @ ct @ '' '' @ str_int cid)), self)"
    by (rule start_simulation_missing)
next
  assume "get_content (db self) ct cid \<noteq> None"
  then obtain content where c: "get_content (db self) ct cid = Some content" by blast
  obtain lo hi where t: "SIMULATION_TIMES ct = Some (lo, hi)"
    using get_content_known [OF c] by blast
  have "lo \<le> hi" using SIMULATION_TIMES_ordered [OF t] by simp
  then have r: "lo \<le> randint lo hi rnd \<and> randint lo hi rnd \<le> hi" by (rule randint_range)
  have d: "randint lo hi rnd = lo + int (rnd mod nat (hi - lo + 1))"
    by (simp add: randint_def)
  have u: "\<forall>v. lo \<le> v \<and> v \<le> hi \<longrightarrow> (\<exists>!j. j < nat (hi - lo + 1) \<and> randint lo hi j = v)"
    using randint_unique by blast
  show "\<exists>rep self' lo hi sim.
           start_simulation self now now' rnd uid ct cid = (Inr rep, self')
           \<and> query_interaction (db self) (interaction_id rep) = None
           \<and> user_interactions (db self')
               = user_interactions (db self)
                   @ [(interaction_id rep, started_interaction uid ct cid now)]
           \<and> query_interaction (db self') (interaction_id rep)
               = Some (started_interaction uid ct cid now)
           \<and> interaction_type (started_interaction uid ct cid now) = ''started''
           \<and> progress_percent (started_interaction uid ct cid now) = 0
           \<and> start_date (started_interaction uid ct cid now) = now
           \<and> SIMULATION_TIMES ct = Some (lo, hi)
           \<and> lo \<le> estimated_time rep \<and> estimated_time rep \<le> hi
           \<and> map_of (active_simulations self') (simulation_id rep) = Some sim
           \<and> sim_total_time sim = estimated_time rep
           \<and> sim_interaction_id sim = interaction_id rep
           \<and> estimated_time rep = lo + int (rnd mod nat (hi - lo + 1))
           \<and> (\<forall>v. lo \<le> v \<and> v \<le> hi \<longrightarrow>
                 (\<exists>!j. j < nat (hi - lo + 1)
                    \<and> fst (start_simulation self now now' j uid ct cid)
                        = Inr (rep\<lparr>estimated_time := v\<rparr>)
                    \<and> map_of (active_simulations
                                 (snd (start_simulation self now now' j uid ct cid)))
                          (simulation_id rep)
                        = Some (sim\<lparr>sim_total_time := v\<rparr>)))"
    using r u
    by (simp add: start_simulation_found [OF c t] t query_interaction_def
        next_interaction_id_unused map_add_def update_conv' started_interaction_def d [symmetric])
qed

theorem start_simulation_not_found_or_created_witness:
  "get_content (db (init demo_db)) ''book'' 2 = None
   \<and> fst (start_simulation (init demo_db) 1000 1001 12 7 ''book'' 2)
       = Inl (ValueError ''Content not found: book 2'')
   \<and> snd (start_simulation (init demo_db) 1000 1001 12 7 ''book'' 2) = init demo_db
   \<and> get_content (db (init demo_db)) ''book'' 1 \<noteq> None
   \<and> (\<exists>rep self' sim.
         start_simulation (init demo_db) 1000 1001 12 7 ''book'' 1 = (Inr rep, self')
         \<and> query_interaction (db self') (interaction_id rep)
             = Some (started_interaction 7 ''book'' 1 1000)
         \<and> 30 \<le> estimated_time rep \<and> estimated_time rep \<le> 180
         \<and> estimated_time rep = 42
         \<and> (30::int) \<le> 100 \<and> (100::int) \<le> 180
         \<and> (\<exists>!j. j < 151
                \<and> fst (start_simulation (init demo_db) 1000 1001 j 7 ''book'' 1)
                    = Inr (rep\<lparr>estimated_time := 100\<rparr>)
                \<and> map_of (active_simulations
                             (snd (start_simulation (init demo_db) 1000 1001 j 7 ''book'' 1)))
                      (simulation_id rep)
                    = Some (sim\<lparr>sim_total_time := 100\<rparr>))
         \<and> fst (start_simulation (init demo_db) 1000 1001 70 7 ''book'' 1)
             = Inr (rep\<lparr>estimated_time := 100\<rparr>))"
proof -
  have a: "get_content (db (init demo_db)) ''book'' 2 = None"
    by (simp add: init_def demo_db_def get_content_def)
  have b: "get_content (db (init demo_db)) ''book'' 1 \<noteq> None"
    by (simp add: init_def demo_db_def get_content_def)
  have k: "str_int 2 = ''2''" by (simp add: str_int_def str_nat.simps)
  have t: "SIMULATION_TIMES ''book'' = Some (30, 180)" by (simp add: SIMULATION_TIMES_def)
  have m: "fst (start_simulation (init demo_db) 1000 1001 12 7 ''book'' 2)
       = Inl (ValueError ''Content not found: book 2'')
     \<and> snd (start_simulation (init demo_db) 1000 1001 12 7 ''book'' 2) = init demo_db"
    using a k start_simulation_not_found_or_created [of "init demo_db" "''book''" 2 1000 1001 12 7]
    by simp
  from b start_simulation_not_found_or_created [of "init demo_db" "''book''" 1 1000 1001 12 7]
  obtain rep self' lo hi sim where
    s: "start_simulation (init demo_db) 1000 1001 12 7 ''book'' 1 = (Inr rep, self')"
    and q: "query_interaction (db self') (interaction_id rep)
             = Some (started_interaction 7 ''book'' 1 1000)"
    and t': "SIMULATION_TIMES ''book'' = Some (lo, hi)"
    and e: "estimated_time rep = lo + int (12 mod nat (hi - lo + 1))"
    and u: "\<forall>v. lo \<le> v \<and> v \<le> hi \<longrightarrow>
                 (\<exists>!j. j < nat (hi - lo + 1)
                    \<and> fst (start_simulation (init demo_db) 1000 1001 j 7 ''book'' 1)
                        = Inr (rep\<lparr>estimated_time := v\<rparr>)
                    \<and> map_of (active_simulations
                                 (snd (start_simulation (init demo_db) 1000 1001 j 7 ''book'' 1)))
                          (simulation_id rep)
                        = Some (sim\<lparr>sim_total_time := v\<rparr>))"
    by blast
  have l: "lo = 30" "hi = 180" using t t' by simp_all
  have e': "estimated_time rep = 42" using e by (simp add: l)
  have u100: "\<exists>!j. j < 151
                    \<and> fst (start_simulation (init demo_db) 1000 1001 j 7 ''book'' 1)
                        = Inr (rep\<lparr>estimated_time := 100\<rparr>)
                    \<and> map_of (active_simulations
                                 (snd (start_simulation (init demo_db) 1000 1001 j 7 ''book'' 1)))
                          (simulation_id rep)
                        = Some (sim\<lparr>sim_total_time := 100\<rparr>)"
    using u [rule_format, of 100] by (simp add: l)
  have d70: "fst (start_simulation (init demo_db) 1000 1001 70 7 ''book'' 1)
                    = Inr (rep\<lparr>estimated_time := 100\<rparr>)"
    using s by (auto simp: demo_defs Let_def)
  show ?thesis using a b m s q e' u100 d70 by auto
qed

text \<open>
  Claim C5. In every reachable state the keys of the session map are pairwise distinct, so a
  key names at most one live simulation. Starting again with a triple whose key is live (and
  whose item still exists) returns normally under the same key: the map keeps exactly its
  keys, the entry of that key is overwritten by the new simulation (new ledger row, new start
  time, no events), every other entry is as before, and the ledger only gains the new row, so
  the row of the replaced simulation stays as it was and nothing refers to it any more.
\<close>

theorem start_replaces_live_session:
  assumes reach: "reachable self"
    and live: "map_of (active_simulations self) (simulation_key uid ct cid) = Some old"
    and item: "get_content (db self) ct cid = Some content"
  shows "distinct (map fst (active_simulations self))
     \<and> (\<exists>rep self' sim.
          start_simulation self now now' rnd uid ct cid = (Inr rep, self')
          \<and> simulation_id rep = simulation_key uid ct cid
          \<and> map fst (active_simulations self') = map fst (active_simulations self)
          \<and> distinct (map fst (active_simulations self'))
          \<and> map_of (active_simulations self') (simulation_key uid ct cid) = Some sim
          \<and> sim_interaction_id sim = interaction_id rep
          \<and> query_interaction (db self) (interaction_id rep) = None
          \<and> sim_start_time sim = now' \<and> sim_events sim = []
          \<and> (\<forall>k. k \<noteq> simulation_key uid ct cid \<longrightarrow>
                map_of (active_simulations self') k = map_of (active_simulations self) k)
          \<and> (\<forall>i r. query_interaction (db self) i = Some r \<longrightarrow>
                query_interaction (db self') i = Some r))"
proof -
  have d: "distinct (map fst (active_simulations self))"
    using reachable_wf [OF reach] by (simp add: wf_service_def)
  obtain lo hi where t: "SIMULATION_TIMES ct = Some (lo, hi)"
    using get_content_known [OF item] by blast
  have "(simulation_key uid ct cid, old) \<in> set (active_simulations self)"
    using live by (rule map_of_SomeD)
  then have mem: "simulation_key uid ct cid \<in> set (map fst (active_simulations self))"
    by force
  have keys: "map fst (AList.update (simulation_key uid ct cid) v (active_simulations self))
                = map fst (active_simulations self)" for v
    using mem by (simp add: update_keys)
  show ?thesis
    using d
    by (simp add: start_simulation_found [OF item t] keys update_conv' query_interaction_def
        next_interaction_id_unused query_old_after_add)
qed

theorem start_replaces_live_session_witness:
  "reachable demo_started
   \<and> map_of (active_simulations demo_started) (simulation_key 7 ''book'' 1) = Some demo_simulation
   \<and> get_content (db demo_started) ''book'' 1 = Some \<lparr>title = ''Dune'', popularity_score = 8\<rparr>
   \<and> (\<exists>rep self' sim.
        start_simulation demo_started 5000 5001 0 7 ''book'' 1 = (Inr rep, self')
        \<and> map fst (active_simulations self') = [''7_book_1'']
        \<and> map_of (active_simulations self') ''7_book_1'' = Some sim
        \<and> sim_start_time sim = 5001
        \<and> sim_interaction_id sim \<noteq> sim_interaction_id demo_simulation
        \<and> query_interaction (db self') 1 = Some demo_interaction)"
proof -
  have k: "simulation_key 7 ''book'' 1 = ''7_book_1''"
    by (simp add: simulation_key_def str_int_def str_nat.simps)
  have l: "map_of (active_simulations demo_started) (simulation_key 7 ''book'' 1)
             = Some demo_simulation"
    by (simp add: k demo_live)
  have c: "get_content (db demo_started) ''book'' 1 = Some \<lparr>title = ''Dune'', popularity_score = 8\<rparr>"
    by (simp add: demo_started_eq demo_db_def get_content_def)
  have q: "query_interaction (db demo_started) 1 = Some demo_interaction"
    by (simp add: demo_started_eq query_interaction_def)
  have m: "map fst (active_simulations demo_started) = [''7_book_1'']"
    by (simp add: demo_started_eq)
  have i: "sim_interaction_id demo_simulation = 1" by (simp add: demo_simulation_def)
  from start_replaces_live_session [OF demo_reachable l c, of 5000 5001 0]
  obtain rep self' sim where
    s: "start_simulation demo_started 5000 5001 0 7 ''book'' 1 = (Inr rep, self')"
    and f: "map fst (active_simulations self') = map fst (active_simulations demo_started)"
    and g: "map_of (active_simulations self') (simulation_key 7 ''book'' 1) = Some sim"
    and h: "sim_interaction_id sim = interaction_id rep"
    and n: "query_interaction (db demo_started) (interaction_id rep) = None"
    and st: "sim_start_time sim = 5001"
    and o: "\<forall>i r. query_interaction (db demo_started) i = Some r \<longrightarrow>
                query_interaction (db self') i = Some r"
    by blast
  have ne: "sim_interaction_id sim \<noteq> sim_interaction_id demo_simulation"
    using h n q i by auto
  have q': "query_interaction (db self') 1 = Some demo_interaction" using o q by blast
  show ?thesis
    using demo_reachable l c s f g st ne q' m k by auto
qed

subsection \<open>Keys of the session map\<close>

lemma progress_keys:
  "map fst (active_simulations (snd (get_simulation_progress self now u k sid)))
     = map fst (active_simulations self)"
proof (cases "map_of (active_simulations self) sid")
  case None
  then show ?thesis by (simp add: progress_sessions_absent)
next
  case (Some sim)
  then have "(sid, sim) \<in> set (active_simulations self)" by (rule map_of_SomeD)
  then have mem: "sid \<in> fst ` set (active_simulations self)" by force
  have keys: "map fst (AList.update sid v (active_simulations self))
                = map fst (active_simulations self)" for v
    using mem by (simp add: update_keys)
  from progress_sessions [OF Some, of now u k] show ?thesis
    using keys by auto
qed

lemma active_loop_keys:
  "map fst (active_simulations (snd (active_loop env uid items self acc)))
     = map fst (active_simulations self)"
proof (induction items arbitrary: self acc)
  case Nil
  show ?case by simp
next
  case (Cons item items)
  obtain sim_id sim_data where item: "item = (sim_id, sim_data)" by (cases item)
  show ?case
  proof (cases "sim_user_id sim_data = uid")
    case False
    then show ?thesis using Cons.IH by (simp add: item)
  next
    case True
    obtain now u k where e: "env sim_id = (now, u, k)" by (cases "env sim_id")
    obtain res self' where g: "get_simulation_progress self now u k sim_id = (res, self')"
      by (cases "get_simulation_progress self now u k sim_id")
    have w: "map fst (active_simulations self') = map fst (active_simulations self)"
      using progress_keys [of self now u k sim_id] g by simp
    show ?thesis
    proof (cases res)
      case (Inl err)
      then show ?thesis using True e g w by (simp add: item)
    next
      case (Inr p)
      then show ?thesis using True e g w Cons.IH [of self'] by (simp add: item)
    qed
  qed
qed

lemma active_keys:
  "map fst (active_simulations (snd (get_active_simulations env self uid)))
     = map fst (active_simulations self)"
  unfolding get_active_simulations_def by (rule active_loop_keys)

lemma absent_iff_keys: "(map_of al k = None) = (k \<notin> set (map fst al))"
  by (simp add: map_of_eq_None_iff)

lemma start_absent:
  assumes "map_of (active_simulations self) sid = None" and "simulation_key uid ct cid \<noteq> sid"
  shows "map_of (active_simulations (snd (start_simulation self now now' rnd uid ct cid))) sid
           = None"
  using start_sessions [of self now now' rnd uid ct cid] assms
  by (auto simp: update_conv')

lemma later_absent:
  assumes "later sid s s'" and "map_of (active_simulations s) sid = None"
  shows "map_of (active_simulations s') sid = None"
  using assms
proof (induction rule: later.induct)
  case (l_refl s)
  then show ?case .
next
  case (l_db s s' d)
  then show ?case by simp
next
  case (l_start s s' uid ct cid now now' rnd)
  then show ?case by (simp add: start_absent)
next
  case (l_progress s s' now u k sid')
  then show ?case by (simp add: absent_iff_keys progress_keys)
next
  case (l_complete s s' now sid' r tags)
  then show ?case by (simp add: complete_sessions delete_conv')
next
  case (l_cancel s s' now sid')
  then show ?case by (simp add: cancel_sessions delete_conv')
next
  case (l_active s s' env uid)
  then show ?case by (simp add: absent_iff_keys active_keys)
qed

lemma complete_absent:
  "map_of (active_simulations self) sid = None \<Longrightarrow>
     complete_simulation self now sid r tags = (Inl (ValueError ''Simulation not found''), self)"
  by (simp add: complete_simulation_def)

lemma cancel_absent:
  "map_of (active_simulations self) sid = None \<Longrightarrow>
     cancel_simulation self now sid = (Inl (ValueError ''Simulation not found''), self)"
  by (simp add: cancel_simulation_def)

subsection \<open>\<^verbatim>\<open>complete_simulation\<close> and \<^verbatim>\<open>cancel_simulation\<close>\<close>

lemma popularity_keeps_ledger [simp]:
  "user_interactions (update_content_popularity d ct cid r) = user_interactions d"
  by (simp add: update_content_popularity_def commit_content_def Let_def split: option.splits)

lemma query_popularity [simp]:
  "query_interaction (update_content_popularity d ct cid r) i = query_interaction d i"
  by (simp add: query_interaction_def)

lemma query_commit_same [simp]:
  "query_interaction (commit_interaction d i v) i = Some v"
  by (simp add: query_interaction_def commit_interaction_def update_conv')

lemma query_commit_other:
  "j \<noteq> i \<Longrightarrow> query_interaction (commit_interaction d i v) j = query_interaction d j"
  by (simp add: query_interaction_def commit_interaction_def update_conv')

lemma complete_simulation_unrecorded:
  assumes live: "map_of (active_simulations self) sid = Some sim"
    and row: "query_interaction (db self) (sim_interaction_id sim) = None"
  shows "complete_simulation self now sid r tags =
     (Inl (UnboundLocalError ''actual_duration''),
      self\<lparr>active_simulations := AList.delete sid (active_simulations self),
           db := update_content_popularity (db self)
                   (sim_content_type sim) (sim_content_id sim) r\<rparr>)"
  by (simp add: complete_simulation_def live row)

lemma completed_row_fields [simp]:
  "interaction_type (completed_row i now dur r tags) = ''completed''"
  "rating (completed_row i now dur r tags) = Some r"
  "progress_percent (completed_row i now dur r tags) = 100"
  "completion_date (completed_row i now dur r tags) = Some now"
  "simulation_duration (completed_row i now dur r tags) = Some dur"
  "user_id (completed_row i now dur r tags) = user_id i"
  "content_type (completed_row i now dur r tags) = content_type i"
  "content_id (completed_row i now dur r tags) = content_id i"
  "start_date (completed_row i now dur r tags) = start_date i"
  by (simp_all add: completed_row_def Let_def split: option.splits)

lemma complete_simulation_recorded:
  assumes live: "map_of (active_simulations self) sid = Some sim"
    and row: "query_interaction (db self) (sim_interaction_id sim) = Some i"
  shows "complete_simulation self now sid r tags =
     (Inr \<lparr>complete_message =
             Complete_message (get_action_verb (sim_content_type sim)) (sim_content_title sim),
           complete_rating = r,
           duration = py_int (total_seconds (now - sim_start_time sim)),
           experience_gained =
             calculate_experience r (py_int (total_seconds (now - sim_start_time sim)))\<rparr>,
      self\<lparr>active_simulations := AList.delete sid (active_simulations self),
           db := update_content_popularity
                   (commit_interaction (db self) (sim_interaction_id sim)
                      (completed_row i now
                         (py_int (total_seconds (now - sim_start_time sim))) r tags))
                   (sim_content_type sim) (sim_content_id sim) r\<rparr>)"
  by (cases tags) (simp_all add: complete_simulation_def live row Let_def completed_row_def)

text \<open>
  Claim C2. For a live simulation whose ledger row exists, \<^verbatim>\<open>complete_simulation\<close> returns
  normally; afterwards the row has \<open>interaction_type = completed\<close> and the given rating, and
  the key is gone from the session map. In that state, and in every later state reached
  without starting the same key again, \<^verbatim>\<open>get_simulation_progress\<close>,
  \<^verbatim>\<open>complete_simulation\<close> and \<^verbatim>\<open>cancel_simulation\<close> on the key raise "Simulation not found"
  and change nothing; so of two calls of complete the first succeeds and the second fails.
\<close>

theorem complete_then_not_found:
  assumes live: "map_of (active_simulations self) sid = Some sim"
    and row: "query_interaction (db self) (sim_interaction_id sim) = Some i"
  shows "\<exists>rep self' i'.
     complete_simulation self now sid r tags = (Inr rep, self')
     \<and> complete_rating rep = r
     \<and> query_interaction (db self') (sim_interaction_id sim) = Some i'
     \<and> interaction_type i' = ''completed'' \<and> rating i' = Some r
     \<and> map_of (active_simulations self') sid = None
     \<and> complete_simulation self' now2 sid r2 tags2
         = (Inl (ValueError ''Simulation not found''), self')
     \<and> (\<forall>s. later sid self' s \<longrightarrow>
          get_simulation_progress s now3 u k sid = (Inl (ValueError ''Simulation not found''), s)
          \<and> complete_simulation s now3 sid r3 tags3
              = (Inl (ValueError ''Simulation not found''), s)
          \<and> cancel_simulation s now3 sid = (Inl (ValueError ''Simulation not found''), s))"
proof -
  let ?i' = "completed_row i now (py_int (total_seconds (now - sim_start_time sim))) r tags"
  let ?self' = "self\<lparr>active_simulations := AList.delete sid (active_simulations self),
           db := update_content_popularity
                   (commit_interaction (db self) (sim_interaction_id sim) ?i')
                   (sim_content_type sim) (sim_content_id sim) r\<rparr>"
  have c: "fst (complete_simulation self now sid r tags)
             = Inr \<lparr>complete_message =
                  Complete_message (get_action_verb (sim_content_type sim))
                    (sim_content_title sim),
                complete_rating = r,
                duration = py_int (total_seconds (now - sim_start_time sim)),
                experience_gained =
                  calculate_experience r (py_int (total_seconds (now - sim_start_time sim)))\<rparr>"
    and c': "snd (complete_simulation self now sid r tags) = ?self'"
    by (simp_all add: complete_simulation_recorded [OF live row])
  have t: "interaction_type ?i' = ''completed''" and g: "rating ?i' = Some r" by simp_all
  have gone: "map_of (active_simulations ?self') sid = None" by (simp add: delete_conv')
  have q: "query_interaction (db ?self') (sim_interaction_id sim) = Some ?i'" by simp
  have again: "complete_simulation ?self' now2 sid r2 tags2
         = (Inl (ValueError ''Simulation not found''), ?self')"
    using gone by (rule complete_absent)
  have after: "get_simulation_progress s now3 u k sid = (Inl (ValueError ''Simulation not found''), s)
          \<and> complete_simulation s now3 sid r3 tags3
              = (Inl (ValueError ''Simulation not found''), s)
          \<and> cancel_simulation s now3 sid = (Inl (ValueError ''Simulation not found''), s)"
    if "later sid ?self' s" for s
  proof -
    have "map_of (active_simulations s) sid = None" using that gone by (rule later_absent)
    then show ?thesis by (simp add: progress_sessions_absent complete_absent cancel_absent)
  qed
  have eq: "complete_simulation self now sid r tags
      = (Inr \<lparr>complete_message =
                  Complete_message (get_action_verb (sim_content_type sim))
                    (sim_content_title sim),
                complete_rating = r,
                duration = py_int (total_seconds (now - sim_start_time sim)),
                experience_gained =
                  calculate_experience r (py_int (total_seconds (now - sim_start_time sim)))\<rparr>,
         ?self')"
    using c c' by (simp add: prod_eq_iff)
  show ?thesis
    apply (rule exI, rule exI [of _ ?self'], rule exI [of _ ?i'])
    apply (intro conjI)
           apply (rule eq)
          apply simp
         apply (rule q)
        apply (rule t)
       apply (rule g)
      apply (rule gone)
     apply (rule again)
    using after apply blast
    done
qed

lemma demo_row:
  "query_interaction (db demo_started) (sim_interaction_id demo_simulation)
     = Some demo_interaction"
  by (simp add: demo_started_eq demo_simulation_def query_interaction_def)

theorem complete_then_not_found_witness:
  "map_of (active_simulations demo_started) ''7_book_1'' = Some demo_simulation
   \<and> query_interaction (db demo_started) (sim_interaction_id demo_simulation)
       = Some demo_interaction
   \<and> (\<exists>rep self' i'.
        complete_simulation demo_started 30001001 ''7_book_1'' 9 None = (Inr rep, self')
        \<and> query_interaction (db self') (sim_interaction_id demo_simulation) = Some i'
        \<and> interaction_type i' = ''completed'' \<and> rating i' = Some 9
        \<and> complete_simulation self' 40001001 ''7_book_1'' 9 None
            = (Inl (ValueError ''Simulation not found''), self')
        \<and> get_simulation_progress self' 40001001 0 0 ''7_book_1''
            = (Inl (ValueError ''Simulation not found''), self')
        \<and> cancel_simulation self' 40001001 ''7_book_1''
            = (Inl (ValueError ''Simulation not found''), self'))"
proof -
  from complete_then_not_found [OF demo_live demo_row,
      of 30001001 9 None 40001001 9 None 40001001 0 0 9 None]
  obtain rep self' i' where
    a: "complete_simulation demo_started 30001001 ''7_book_1'' 9 None = (Inr rep, self')"
    and b: "query_interaction (db self') (sim_interaction_id demo_simulation) = Some i'"
    and c: "interaction_type i' = ''completed''" and d: "rating i' = Some 9"
    and e: "complete_simulation self' 40001001 ''7_book_1'' 9 None
              = (Inl (ValueError ''Simulation not found''), self')"
    and f: "\<forall>s. later ''7_book_1'' self' s \<longrightarrow>
          get_simulation_progress s 40001001 0 0 ''7_book_1''
            = (Inl (ValueError ''Simulation not found''), s)
          \<and> complete_simulation s 40001001 ''7_book_1'' 9 None
              = (Inl (ValueError ''Simulation not found''), s)
          \<and> cancel_simulation s 40001001 ''7_book_1''
              = (Inl (ValueError ''Simulation not found''), s)"
    by blast
  have "later ''7_book_1'' self' self'" by (rule l_refl)
  with f have g: "get_simulation_progress self' 40001001 0 0 ''7_book_1''
            = (Inl (ValueError ''Simulation not found''), self')"
    and h: "cancel_simulation self' 40001001 ''7_book_1''
            = (Inl (ValueError ''Simulation not found''), self')"
    by blast+
  show ?thesis using demo_live demo_row a b c d e g h by blast
qed

lemma cancel_simulation_live:
  assumes live: "map_of (active_simulations self) sid = Some sim"
  shows "cancel_simulation self now sid =
     (Inr (Cancel_message (get_action_verb (sim_content_type sim)) (sim_content_title sim)),
      self\<lparr>active_simulations := AList.delete sid (active_simulations self),
           db := (case query_interaction (db self) (sim_interaction_id sim) of
                    None \<Rightarrow> db self
                  | Some i \<Rightarrow>
                      commit_interaction (db self) (sim_interaction_id sim)
                        (i\<lparr>interaction_type := ''dropped'', completion_date := Some now\<rparr>))\<rparr>)"
  by (simp add: cancel_simulation_def live split: option.splits)

lemma commit_interaction_tables [simp]:
  "books (commit_interaction d i v) = books d"
  "movies (commit_interaction d i v) = movies d"
  "games (commit_interaction d i v) = games d"
  by (simp_all add: commit_interaction_def)

lemma commit_interaction_keys:
  "query_interaction d i = Some v0 \<Longrightarrow>
     map fst (user_interactions (commit_interaction d i v)) = map fst (user_interactions d)"
proof -
  assume "query_interaction d i = Some v0"
  then have "(i, v0) \<in> set (user_interactions d)"
    unfolding query_interaction_def by (rule map_of_SomeD)
  then have "i \<in> fst ` set (user_interactions d)" by force
  then show ?thesis by (simp add: commit_interaction_def update_keys)
qed

text \<open>
  Claim C6. For a live simulation \<^verbatim>\<open>cancel_simulation\<close> returns normally and removes the key
  from the session map, leaving every other entry as it was. If the ledger row of the
  simulation exists, it is rewritten with \<open>interaction_type = dropped\<close> and
  \<open>completion_date = now\<close> and is otherwise the row that was there (so \<open>progress_percent\<close>
  keeps its last written value); every other row, the set of row keys and the three content
  tables, hence every popularity score, are unchanged. If the row does not exist the
  database is unchanged.
\<close>

theorem cancel_drops_and_evicts:
  assumes live: "map_of (active_simulations self) sid = Some sim"
  shows "\<exists>msg self'.
     cancel_simulation self now sid = (Inr msg, self')
     \<and> map_of (active_simulations self') sid = None
     \<and> active_simulations self' = AList.delete sid (active_simulations self)
     \<and> (\<forall>k. k \<noteq> sid \<longrightarrow>
           map_of (active_simulations self') k = map_of (active_simulations self) k)
     \<and> books (db self') = books (db self)
     \<and> movies (db self') = movies (db self)
     \<and> games (db self') = games (db self)
     \<and> (\<forall>ct cid. get_content (db self') ct cid = get_content (db self) ct cid)
     \<and> (\<forall>j. j \<noteq> sim_interaction_id sim \<longrightarrow>
           query_interaction (db self') j = query_interaction (db self) j)
     \<and> (\<forall>i. query_interaction (db self) (sim_interaction_id sim) = Some i \<longrightarrow>
           query_interaction (db self') (sim_interaction_id sim)
             = Some (i\<lparr>interaction_type := ''dropped'', completion_date := Some now\<rparr>)
           \<and> progress_percent (i\<lparr>interaction_type := ''dropped'', completion_date := Some now\<rparr>)
               = progress_percent i
           \<and> map fst (user_interactions (db self')) = map fst (user_interactions (db self)))
     \<and> (query_interaction (db self) (sim_interaction_id sim) = None \<longrightarrow> db self' = db self)"
proof (cases "query_interaction (db self) (sim_interaction_id sim)")
  case None
  show ?thesis
    by (simp add: cancel_simulation_live [OF live] None delete_conv')
next
  case (Some i)
  show ?thesis
    by (simp add: cancel_simulation_live [OF live] Some delete_conv' query_commit_other
        commit_interaction_keys [OF Some] get_content_def)
qed

theorem cancel_drops_and_evicts_witness:
  "map_of (active_simulations demo_started) ''7_book_1'' = Some demo_simulation
   \<and> query_interaction (db demo_started) (sim_interaction_id demo_simulation)
       = Some demo_interaction
   \<and> (\<exists>msg self'.
        cancel_simulation demo_started 9001001 ''7_book_1'' = (Inr msg, self')
        \<and> active_simulations self' = []
        \<and> books (db self') 1 = Some \<lparr>title = ''Dune'', popularity_score = 8\<rparr>
        \<and> query_interaction (db self') 1
            = Some (demo_interaction\<lparr>interaction_type := ''dropped'',
                      completion_date := Some 9001001\<rparr>))"
proof -
  have i: "sim_interaction_id demo_simulation = 1" by (simp add: demo_simulation_def)
  have b: "books (db demo_started) 1 = Some \<lparr>title = ''Dune'', popularity_score = 8\<rparr>"
    by (simp add: demo_started_eq demo_db_def)
  have d: "AList.delete ''7_book_1'' (active_simulations demo_started) = []"
    by (simp add: demo_started_eq)
  from cancel_drops_and_evicts [OF demo_live, of 9001001]
  obtain msg self' where
    c: "cancel_simulation demo_started 9001001 ''7_book_1'' = (Inr msg, self')"
    and e: "active_simulations self' = AList.delete ''7_book_1'' (active_simulations demo_started)"
    and f: "books (db self') = books (db demo_started)"
    and g: "\<forall>i. query_interaction (db demo_started) (sim_interaction_id demo_simulation) = Some i
          \<longrightarrow> query_interaction (db self') (sim_interaction_id demo_simulation)
             = Some (i\<lparr>interaction_type := ''dropped'', completion_date := Some 9001001\<rparr>)
           \<and> progress_percent (i\<lparr>interaction_type := ''dropped'', completion_date := Some 9001001\<rparr>)
               = progress_percent i
           \<and> map fst (user_interactions (db self')) = map fst (user_interactions (db demo_started))"
    by blast
  have q: "query_interaction (db self') 1
            = Some (demo_interaction\<lparr>interaction_type := ''dropped'',
                      completion_date := Some 9001001\<rparr>)"
    using g demo_row i by simp
  show ?thesis using demo_live demo_row c e d f b q by simp
qed

subsection \<open>A simulation whose ledger row is gone\<close>

lemma demo_orphaned_eq:
  "demo_orphaned = \<lparr>db = demo_db, active_simulations = [(''7_book_1'', demo_simulation)]\<rparr>"
  by (simp add: demo_orphaned_def demo_started_eq delete_interaction_def query_interaction_def
      demo_interaction_def demo_db_def)

lemma demo_orphaned_reachable: "reachable demo_orphaned"
  unfolding demo_orphaned_def by (rule r_db) (rule demo_reachable)

lemma demo_orphaned_live:
  "map_of (active_simulations demo_orphaned) ''7_book_1'' = Some demo_simulation"
  by (simp add: demo_orphaned_eq)

lemma demo_orphaned_row:
  "query_interaction (db demo_orphaned) (sim_interaction_id demo_simulation) = None"
  by (simp add: demo_orphaned_eq demo_db_def query_interaction_def)

text \<open>
  Claim C10. A state with a live simulation whose ledger row is absent is reachable (the
  owner may delete the row). For a live simulation, if the row is absent then
  \<^verbatim>\<open>complete_simulation\<close> raises \<^verbatim>\<open>UnboundLocalError\<close> for \<^verbatim>\<open>actual_duration\<close>, yet the state
  it leaves has the key evicted and the popularity update applied, so the call is not atomic;
  and the call returns normally exactly when the row exists.
\<close>

theorem complete_without_ledger_row:
  "(\<exists>s sid sim. reachable s \<and> map_of (active_simulations s) sid = Some sim
       \<and> query_interaction (db s) (sim_interaction_id sim) = None)
   \<and> (map_of (active_simulations self) sid = Some sim \<longrightarrow>
        (query_interaction (db self) (sim_interaction_id sim) = None \<longrightarrow>
           complete_simulation self now sid r tags
             = (Inl (UnboundLocalError ''actual_duration''),
                self\<lparr>active_simulations := AList.delete sid (active_simulations self),
                     db := update_content_popularity (db self)
                             (sim_content_type sim) (sim_content_id sim) r\<rparr>)
           \<and> map_of (active_simulations (snd (complete_simulation self now sid r tags))) sid
               = None
           \<and> snd (complete_simulation self now sid r tags) \<noteq> self)
        \<and> ((\<exists>rep self'. complete_simulation self now sid r tags = (Inr rep, self'))
             \<longleftrightarrow> query_interaction (db self) (sim_interaction_id sim) \<noteq> None))"
proof (intro conjI impI)
  show "\<exists>s sid sim. reachable s \<and> map_of (active_simulations s) sid = Some sim
       \<and> query_interaction (db s) (sim_interaction_id sim) = None"
    using demo_orphaned_reachable demo_orphaned_live demo_orphaned_row by blast
next
  assume live: "map_of (active_simulations self) sid = Some sim"
    and row: "query_interaction (db self) (sim_interaction_id sim) = None"
  show "complete_simulation self now sid r tags
             = (Inl (UnboundLocalError ''actual_duration''),
                self\<lparr>active_simulations := AList.delete sid (active_simulations self),
                     db := update_content_popularity (db self)
                             (sim_content_type sim) (sim_content_id sim) r\<rparr>)"
    using live row by (rule complete_simulation_unrecorded)
  show gone: "map_of (active_simulations (snd (complete_simulation self now sid r tags))) sid
               = None"
    by (simp add: complete_sessions delete_conv')
  show "snd (complete_simulation self now sid r tags) \<noteq> self"
  proof
    assume "snd (complete_simulation self now sid r tags) = self"
    with gone have "map_of (active_simulations self) sid = None" by simp
    with live show False by simp
  qed
next
  assume live: "map_of (active_simulations self) sid = Some sim"
  show "(\<exists>rep self'. complete_simulation self now sid r tags = (Inr rep, self'))
             \<longleftrightarrow> query_interaction (db self) (sim_interaction_id sim) \<noteq> None"
  proof (cases "query_interaction (db self) (sim_interaction_id sim)")
    case None
    then show ?thesis by (simp add: complete_simulation_unrecorded [OF live None])
  next
    case (Some i)
    then show ?thesis by (simp add: complete_simulation_recorded [OF live Some])
  qed
qed

lemma demo_score_10:
  "py_round2 (float_add (float_mul 8 (double (9 / 10)))
                (float_mul (float_of_int 10) (double (1 / 10)))) = double (41 / 5)"
  by code_simp

theorem complete_without_ledger_row_witness:
  "reachable demo_orphaned
   \<and> map_of (active_simulations demo_orphaned) ''7_book_1'' = Some demo_simulation
   \<and> query_interaction (db demo_orphaned) (sim_interaction_id demo_simulation) = None
   \<and> fst (complete_simulation demo_orphaned 30001001 ''7_book_1'' 10 None)
       = Inl (UnboundLocalError ''actual_duration'')
   \<and> active_simulations (snd (complete_simulation demo_orphaned 30001001 ''7_book_1'' 10 None))
       = []
   \<and> books (db (snd (complete_simulation demo_orphaned 30001001 ''7_book_1'' 10 None))) 1
       = Some \<lparr>title = ''Dune'', popularity_score = double (41 / 5)\<rparr>"
proof -
  have p: "update_content_popularity (db demo_orphaned)
             (sim_content_type demo_simulation) (sim_content_id demo_simulation) 10
           = demo_db\<lparr>books := [1 \<mapsto> \<lparr>title = ''Dune'',
                                            popularity_score = double (41 / 5)\<rparr>]\<rparr>"
    by (simp add: demo_orphaned_eq demo_simulation_def demo_db_def update_content_popularity_def
        get_content_def commit_content_def demo_score_10 Let_def)
  have d: "AList.delete ''7_book_1'' (active_simulations demo_orphaned) = []"
    by (simp add: demo_orphaned_eq)
  show ?thesis
    using complete_without_ledger_row
            [of demo_orphaned "''7_book_1''" demo_simulation 30001001 10 None]
      demo_orphaned_reachable demo_orphaned_live demo_orphaned_row p d
    by simp
qed

subsection \<open>The popularity update\<close>






lemma get_content_commit_interaction [simp]:
  "get_content (commit_interaction d i v) ct cid = get_content d ct cid"
  by (simp add: get_content_def)












subsection \<open>\<^verbatim>\<open>get_simulation_progress\<close> on a live simulation\<close>

lemma get_simulation_progress_result:
  assumes live: "map_of (active_simulations self) sid = Some sim"
    and valid: "valid_simulation sim"
  shows "\<exists>evs. SIMULATION_EVENTS (sim_content_type sim) = Some evs \<and>
     get_simulation_progress self now u k sid =
       (if 20 < progress_of sim now \<and> length (sim_events sim) < 3 \<and> u < 3 / 10 then
          (Inr \<lparr>progress = progress_of sim now, completed = (100 \<le> progress_of sim now),
                event = Some (choice evs k),
                progress_content_title = sim_content_title sim,
                elapsed_time = py_int (total_seconds (now - sim_start_time sim))\<rparr>,
           self\<lparr>db := progress_db (db self) sim (progress_of sim now),
                active_simulations :=
                  AList.update sid (sim\<lparr>sim_events := sim_events sim @ [choice evs k]\<rparr>)
                    (active_simulations self)\<rparr>)
        else
          (Inr \<lparr>progress = progress_of sim now, completed = (100 \<le> progress_of sim now),
                event = None,
                progress_content_title = sim_content_title sim,
                elapsed_time = py_int (total_seconds (now - sim_start_time sim))\<rparr>,
           self\<lparr>db := progress_db (db self) sim (progress_of sim now)\<rparr>))"
proof -
  have t: "sim_total_time sim \<noteq> 0" using valid_simulation_total_time [OF valid] by simp
  obtain evs where evs: "SIMULATION_EVENTS (sim_content_type sim) = Some evs"
    using valid_simulation_EVENTS [OF valid] by blast
  show ?thesis
    by (simp add: get_simulation_progress_def live t evs Let_def progress_db_def
        split: option.splits)
qed

text \<open>The literal \<^verbatim>\<open>0.3\<close> of the gate is the double just below \<open>3/10\<close>. A draw of
  \<^verbatim>\<open>random.random()\<close> is a multiple of \<open>2^-53\<close>, and for those the comparison with the
  double and the comparison with \<open>3/10\<close> agree.\<close>

lemma double_three_tenths: "double (3 / 10) = 5404319552844595 / 18014398509481984"
  by code_simp

lemma gate_exact:
  fixes m :: int
  shows "(of_int m / 2 ^ 53 < double (3 / 10)) = ((of_int m :: rat) / 2 ^ 53 < 3 / 10)"
proof -
  have a: "((of_int m :: rat) / 2 ^ 53 < 5404319552844595 / 18014398509481984)
             = (2 * m < 5404319552844595)"
  proof -
    have "((of_int m :: rat) / 2 ^ 53 < 5404319552844595 / 18014398509481984)
             = ((of_int (2 * m) :: rat) < of_int 5404319552844595)"
      by (simp add: field_simps)
    then show ?thesis by (simp only: of_int_less_iff)
  qed
  have b: "((of_int m :: rat) / 2 ^ 53 < 3 / 10) = (10 * m < 27021597764222976)"
  proof -
    have "((of_int m :: rat) / 2 ^ 53 < 3 / 10)
             = ((of_int (10 * m) :: rat) < of_int 27021597764222976)"
      by (simp add: field_simps)
    then show ?thesis by (simp only: of_int_less_iff)
  qed
  have "(2 * m < 5404319552844595) = (10 * m < 27021597764222976)" by presburger
  then show ?thesis by (simp only: double_three_tenths a b)
qed

text \<open>
  Claim C8. In a reachable state every live simulation holds at most three events. A call of
  \<^verbatim>\<open>get_simulation_progress\<close> on it returns normally and either leaves its events as they are
  and reports no event, or appends exactly the one event it reports; it appends exactly when
  the computed progress exceeds 20, fewer than three events are held and the draw of
  \<^verbatim>\<open>random.random()\<close> is below 0.3. Afterwards the simulation again holds at most three
  events, and one that held three holds the same three.
\<close>

theorem events_grow_by_gate:
  assumes reach: "reachable self"
    and live: "map_of (active_simulations self) sid = Some sim"
  shows "length (sim_events sim) \<le> 3
     \<and> (\<exists>rep self' sim'.
          get_simulation_progress self now u k sid = (Inr rep, self')
          \<and> map_of (active_simulations self') sid = Some sim'
          \<and> ((sim_events sim' = sim_events sim \<and> event rep = None)
               \<or> (\<exists>ev. sim_events sim' = sim_events sim @ [ev] \<and> event rep = Some ev))
          \<and> (sim_events sim' \<noteq> sim_events sim
               \<longleftrightarrow> 20 < progress rep \<and> length (sim_events sim) < 3 \<and> u < 3 / 10)
          \<and> length (sim_events sim') \<le> 3
          \<and> (length (sim_events sim) = 3 \<longrightarrow> sim_events sim' = sim_events sim))"
proof -
  have wf: "wf_service self" using reach by (rule reachable_wf)
  have valid: "valid_simulation sim" using wf live by (rule wf_service_live)
  have len: "length (sim_events sim) \<le> 3" using valid by (rule valid_simulation_events)
  let ?p = "progress_of sim now"
  let ?d = "progress_db (db self) sim ?p"
  let ?e = "py_int (total_seconds (now - sim_start_time sim))"
  let ?gate = "20 < ?p \<and> length (sim_events sim) < 3 \<and> u < 3 / 10"
  obtain evs where
    res: "get_simulation_progress self now u k sid =
       (if ?gate then
          (Inr \<lparr>progress = ?p, completed = (100 \<le> ?p), event = Some (choice evs k),
                progress_content_title = sim_content_title sim, elapsed_time = ?e\<rparr>,
           self\<lparr>db := ?d,
                active_simulations :=
                  AList.update sid (sim\<lparr>sim_events := sim_events sim @ [choice evs k]\<rparr>)
                    (active_simulations self)\<rparr>)
        else
          (Inr \<lparr>progress = ?p, completed = (100 \<le> ?p), event = None,
                progress_content_title = sim_content_title sim, elapsed_time = ?e\<rparr>,
           self\<lparr>db := ?d\<rparr>))"
    using get_simulation_progress_result [OF live valid, of now u k] by blast
  show ?thesis
  proof (cases ?gate)
    case True
    have r: "get_simulation_progress self now u k sid =
          (Inr \<lparr>progress = ?p, completed = (100 \<le> ?p), event = Some (choice evs k),
                progress_content_title = sim_content_title sim, elapsed_time = ?e\<rparr>,
           self\<lparr>db := ?d,
                active_simulations :=
                  AList.update sid (sim\<lparr>sim_events := sim_events sim @ [choice evs k]\<rparr>)
                    (active_simulations self)\<rparr>)"
      unfolding res using True by (rule if_P)
    have l: "length (sim_events sim) < 3" using True by simp
    show ?thesis using len l True by (simp add: r update_conv')
  next
    case False
    have r: "get_simulation_progress self now u k sid =
          (Inr \<lparr>progress = ?p, completed = (100 \<le> ?p), event = None,
                progress_content_title = sim_content_title sim, elapsed_time = ?e\<rparr>,
           self\<lparr>db := ?d\<rparr>)"
      unfolding res using False by (rule if_not_P)
    show ?thesis
      apply (rule conjI [OF len])
      apply (rule exI, rule exI, rule exI [of _ sim])
      apply (intro conjI)
           apply (rule r)
          apply (simp add: live)
         apply simp
        using False apply simp
       apply (rule len)
      apply simp
      done
  qed
qed

theorem events_grow_by_gate_witness:
  "reachable demo_started
   \<and> map_of (active_simulations demo_started) ''7_book_1'' = Some demo_simulation
   \<and> (\<exists>rep self' sim'.
        get_simulation_progress demo_started 21001001 (1 / 10) 3 ''7_book_1'' = (Inr rep, self')
        \<and> map_of (active_simulations self') ''7_book_1'' = Some sim'
        \<and> progress rep = 50
        \<and> length (sim_events sim') = 1 \<and> event rep \<noteq> None)
   \<and> (\<exists>rep self' sim'.
        get_simulation_progress demo_started 21001001 (1 / 2) 3 ''7_book_1'' = (Inr rep, self')
        \<and> map_of (active_simulations self') ''7_book_1'' = Some sim'
        \<and> sim_events sim' = [] \<and> event rep = None)"
proof -
  have e: "sim_events demo_simulation = []" by (simp add: demo_simulation_def)
  have p: "progress_of demo_simulation 21001001 = 50" by (rule demo_progress_50)
  obtain rep1 s1 where g1: "get_simulation_progress demo_started 21001001 (1 / 10) 3 ''7_book_1''
      = (Inr rep1, s1)" and p1: "progress rep1 = progress_of demo_simulation 21001001"
    using get_simulation_progress_live [OF demo_live demo_valid, of 21001001 "1 / 10" 3] by blast
  obtain rep2 s2 where g2: "get_simulation_progress demo_started 21001001 (1 / 2) 3 ''7_book_1''
      = (Inr rep2, s2)" and p2: "progress rep2 = progress_of demo_simulation 21001001"
    using get_simulation_progress_live [OF demo_live demo_valid, of 21001001 "1 / 2" 3] by blast
  show ?thesis
    using events_grow_by_gate [OF demo_reachable demo_live, of 21001001 "1 / 10" 3]
      events_grow_by_gate [OF demo_reachable demo_live, of 21001001 "1 / 2" 3]
      demo_reachable demo_live e p g1 p1 g2 p2
    by auto
qed

subsection \<open>The handler of \<^verbatim>\<open>POST /simulation/complete\<close>\<close>

lemma api_complete_simulation_passes_rating:
  "api_complete_simulation self now sid \<lparr>body_rating = r, body_personal_tags = ts\<rparr> =
     (case complete_simulation self now sid r (Some ts) of
        (Inr result, self') \<Rightarrow> (Ok result, self')
      | (Inl (ValueError m), self') \<Rightarrow> (HTTPException 404 m, self')
      | (Inl e, self') \<Rightarrow> (Unhandled e, self'))"
  by (simp add: api_complete_simulation_def)

text \<open>
  Claim C7 on the code: the handler hands any integer rating to the service. A request with
  rating 100 for the running simulation is answered normally with that rating; the ledger row
  then stores rating 100 and the popularity score of the item becomes 17.2 (the double
  nearest to it).
\<close>

theorem api_complete_accepts_rating_100:
  "fst (api_complete_simulation demo_started 31001001 ''7_book_1''
          \<lparr>body_rating = 100, body_personal_tags = []\<rparr>)
     = Ok \<lparr>complete_message = Complete_message Chtenie ''Dune'', complete_rating = 100,
           duration = 31, experience_gained = 1001\<rparr>
   \<and> query_interaction
        (db (snd (api_complete_simulation demo_started 31001001 ''7_book_1''
                    \<lparr>body_rating = 100, body_personal_tags = []\<rparr>))) 1
       = Some (demo_interaction\<lparr>interaction_type := ''completed'', rating := Some 100,
                 progress_percent := 100, completion_date := Some 31001001,
                 simulation_duration := Some 31\<rparr>)
   \<and> books (db (snd (api_complete_simulation demo_started 31001001 ''7_book_1''
                       \<lparr>body_rating = 100, body_personal_tags = []\<rparr>))) 1
       = Some \<lparr>title = ''Dune'', popularity_score = double (86 / 5)\<rparr>"
proof -
  have "py_int (total_seconds 31000000) = 31" by code_simp
  then have d: "py_int (total_seconds (31001001 - sim_start_time demo_simulation)) = 31"
    by (simp add: demo_simulation_def)
  have n: "py_round2 (float_add (float_mul 8 (double (9 / 10)))
                (float_mul (float_of_int 100) (double (1 / 10)))) = double (86 / 5)"
    by code_simp
  have x: "calculate_experience 100 31 = 1001"
    by (simp add: calculate_experience_def Let_def)
  have v: "get_action_verb (sim_content_type demo_simulation) = Chtenie"
    "sim_content_title demo_simulation = ''Dune''" "sim_interaction_id demo_simulation = 1"
    by (simp_all add: demo_simulation_def get_action_verb_def)
  have r: "completed_row demo_interaction 31001001 31 100 (Some [])
      = demo_interaction\<lparr>interaction_type := ''completed'', rating := Some 100,
                 progress_percent := 100, completion_date := Some 31001001,
                 simulation_duration := Some 31\<rparr>"
    by (simp add: completed_row_def)
  have p: "books (update_content_popularity
             (commit_interaction (db demo_started) 1 w)
             (sim_content_type demo_simulation) (sim_content_id demo_simulation) 100) 1
           = Some \<lparr>title = ''Dune'', popularity_score = double (86 / 5)\<rparr>" for w
    by (simp add: demo_started_eq demo_simulation_def demo_db_def update_content_popularity_def
        get_content_def commit_content_def commit_interaction_def n Let_def)
  show ?thesis
    by (simp add: api_complete_simulation_def
        complete_simulation_recorded [OF demo_live demo_row] d x v r p)
qed

subsection \<open>The handler of \<^verbatim>\<open>GET /simulation/active\<close>\<close>

lemma progress_tables:
  "books (db (snd (get_simulation_progress self now u k sid))) = books (db self)"
  "movies (db (snd (get_simulation_progress self now u k sid))) = movies (db self)"
  "games (db (snd (get_simulation_progress self now u k sid))) = games (db self)"
  by (simp_all add: get_simulation_progress_def Let_def split: option.splits)

lemma progress_ledger_keys:
  "map fst (user_interactions (db (snd (get_simulation_progress self now u k sid))))
     = map fst (user_interactions (db self))"
  by (auto simp: get_simulation_progress_def Let_def commit_interaction_keys
      split: option.splits)

lemma progress_other_session:
  "k' \<noteq> sid \<Longrightarrow>
     map_of (active_simulations (snd (get_simulation_progress self now u k sid))) k'
       = map_of (active_simulations self) k'"
  by (simp add: get_simulation_progress_def Let_def update_conv' split: option.splits)

lemma progress_same_session:
  assumes "map_of (active_simulations self) sid = Some sim"
  shows "\<exists>evs. map_of (active_simulations (snd (get_simulation_progress self now u k sid))) sid
           = Some (sim\<lparr>sim_events := evs\<rparr>)"
proof -
  have same: "sim = sim\<lparr>sim_events := sim_events sim\<rparr>" by simp
  from progress_sessions [OF assms, of now u k] show ?thesis
  proof (elim disjE exE conjE)
    assume "active_simulations (snd (get_simulation_progress self now u k sid))
              = active_simulations self"
    then have "map_of (active_simulations (snd (get_simulation_progress self now u k sid))) sid
                 = Some (sim\<lparr>sim_events := sim_events sim\<rparr>)"
      using assms by simp
    then show ?thesis by blast
  next
    fix ev
    assume "active_simulations (snd (get_simulation_progress self now u k sid))
              = AList.update sid (sim\<lparr>sim_events := sim_events sim @ [ev]\<rparr>)
                  (active_simulations self)"
    then have "map_of (active_simulations (snd (get_simulation_progress self now u k sid))) sid
                 = Some (sim\<lparr>sim_events := sim_events sim @ [ev]\<rparr>)"
      by (simp add: update_conv')
    then show ?thesis by blast
  qed
qed

lemma progress_of_cong:
  "sim_start_time a = sim_start_time b \<Longrightarrow> sim_total_time a = sim_total_time b
     \<Longrightarrow> progress_of a now = progress_of b now"
  by (simp add: progress_of_def)

text \<open>The loop of the handler is the successive polling of the user's simulations.\<close>

lemma active_loop_fold:
  assumes "wf_service self"
    and "\<forall>(sim_id, sim_data) \<in> set items.
           \<exists>sim. map_of (active_simulations self) sim_id = Some sim
               \<and> sim_start_time sim = sim_start_time sim_data
               \<and> sim_total_time sim = sim_total_time sim_data"
  shows "active_loop env uid items self acc
           = (Inr (acc @ map (summary_of env) (owned uid items)),
              fold (poll env) (owned uid items) self)"
  using assms
proof (induction items arbitrary: self acc)
  case Nil
  show ?case by (simp add: owned_def)
next
  case (Cons item items)
  obtain sim_id sim_data where item: "item = (sim_id, sim_data)" by (cases item)
  have rest: "\<forall>(sim_id, sim_data) \<in> set items.
           \<exists>sim. map_of (active_simulations self) sim_id = Some sim
               \<and> sim_start_time sim = sim_start_time sim_data
               \<and> sim_total_time sim = sim_total_time sim_data"
    using Cons.prems(2) by simp
  show ?case
  proof (cases "sim_user_id sim_data = uid")
    case False
    then show ?thesis using Cons.IH [OF Cons.prems(1) rest] by (simp add: item owned_def)
  next
    case True
    obtain now u k where e: "env sim_id = (now, u, k)" by (cases "env sim_id")
    obtain sim where live: "map_of (active_simulations self) sim_id = Some sim"
      and st: "sim_start_time sim = sim_start_time sim_data"
      and tt: "sim_total_time sim = sim_total_time sim_data"
      using Cons.prems(2) item by auto
    have valid: "valid_simulation sim" using Cons.prems(1) live by (rule wf_service_live)
    obtain rep self' where g: "get_simulation_progress self now u k sim_id = (Inr rep, self')"
      and pr: "progress rep = progress_of sim now"
      using get_simulation_progress_live [OF live valid, of now u k] by blast
    have pr': "progress rep = progress_of sim_data now"
      using pr progress_of_cong [OF st tt] by simp
    have self': "self' = snd (get_simulation_progress self now u k sim_id)" using g by simp
    have w: "wf_service self'" unfolding self' using Cons.prems(1) by (rule wf_progress)
    have rest': "\<forall>(sim_id, sim_data) \<in> set items.
           \<exists>sim. map_of (active_simulations self') sim_id = Some sim
               \<and> sim_start_time sim = sim_start_time sim_data
               \<and> sim_total_time sim = sim_total_time sim_data"
    proof (clarify)
      fix k2 sim2
      assume mem: "(k2, sim2) \<in> set items"
      obtain s2 where l2: "map_of (active_simulations self) k2 = Some s2"
        and st2: "sim_start_time s2 = sim_start_time sim2"
        and tt2: "sim_total_time s2 = sim_total_time sim2"
        using rest mem by auto
      show "\<exists>sim. map_of (active_simulations self') k2 = Some sim
               \<and> sim_start_time sim = sim_start_time sim2
               \<and> sim_total_time sim = sim_total_time sim2"
      proof (cases "k2 = sim_id")
        case False
        then have "map_of (active_simulations self') k2 = Some s2"
          unfolding self' using l2 by (simp add: progress_other_session)
        then show ?thesis using st2 tt2 by blast
      next
        case True
        then have l2': "map_of (active_simulations self) sim_id = Some s2" using l2 by simp
        obtain evs where "map_of (active_simulations self') sim_id = Some (s2\<lparr>sim_events := evs\<rparr>)"
          unfolding self' using progress_same_session [OF l2', of now u k] by blast
        then show ?thesis using True st2 tt2 by simp
      qed
    qed
    have own: "owned uid ((sim_id, sim_data) # items) = (sim_id, sim_data) # owned uid items"
      using True by (simp add: owned_def)
    have po: "poll env (sim_id, sim_data) self = self'"
      by (simp add: poll_def e g)
    have su: "summary_of env (sim_id, sim_data)
        = \<lparr>summary_simulation_id = sim_id,
           summary_content_title = sim_content_title sim_data,
           summary_content_type = sim_content_type sim_data,
           summary_progress = progress rep,
           summary_start_time = sim_start_time sim_data\<rparr>"
      by (simp add: summary_of_def e pr')
    show ?thesis
      using True e g Cons.IH [OF w rest'] by (simp add: item own po su)
  qed
qed

lemma fold_poll_invariant:
  assumes step: "\<And>s now u k sid. P s \<Longrightarrow> P (snd (get_simulation_progress s now u k sid))"
    and init: "P self"
  shows "P (fold (poll env) items self)"
  using init
proof (induction items arbitrary: self)
  case Nil
  then show ?case by simp
next
  case (Cons item items)
  obtain now u k where e: "env (fst item) = (now, u, k)" by (cases "env (fst item)")
  have "P (poll env item self)" using step [OF Cons.prems] by (simp add: poll_def e)
  then show ?case using Cons.IH by simp
qed

lemma fold_poll_other:
  "k' \<notin> fst ` set items \<Longrightarrow>
     map_of (active_simulations (fold (poll env) items self)) k'
       = map_of (active_simulations self) k'"
proof (induction items arbitrary: self)
  case Nil
  show ?case by simp
next
  case (Cons item items)
  obtain now u k where e: "env (fst item) = (now, u, k)" by (cases "env (fst item)")
  have a: "k' \<noteq> fst item" and b: "k' \<notin> fst ` set items" using Cons.prems by auto
  have "map_of (active_simulations (poll env item self)) k' = map_of (active_simulations self) k'"
    using a by (simp add: poll_def e progress_other_session)
  then show ?case using Cons.IH [OF b] by simp
qed

text \<open>
  Claim C9, as amended. In a reachable state the handler returns, in the order of the
  session map, one summary for each live simulation owned by the user and for no other, with
  the progress that \<^verbatim>\<open>get_simulation_progress\<close> computes for it. The state it leaves is the
  one reached by calling \<^verbatim>\<open>get_simulation_progress\<close> on each of these simulations in turn,
  with the writes of that operation (the percentage in the ledger row, possibly one more
  event in the simulation). It keeps the keys of the session map, the keys of the ledger,
  the three content tables and every simulation of another user.
\<close>

theorem get_active_simulations_polls:
  assumes reach: "reachable self"
  shows "get_active_simulations env self uid
           = (Inr (map (summary_of env) (owned uid (active_simulations self))),
              fold (poll env) (owned uid (active_simulations self)) self)
     \<and> map summary_simulation_id (map (summary_of env) (owned uid (active_simulations self)))
         = map fst (filter (\<lambda>(sim_id, sim_data). sim_user_id sim_data = uid)
                      (active_simulations self))
     \<and> map fst (active_simulations (snd (get_active_simulations env self uid)))
         = map fst (active_simulations self)
     \<and> map fst (user_interactions (db (snd (get_active_simulations env self uid))))
         = map fst (user_interactions (db self))
     \<and> books (db (snd (get_active_simulations env self uid))) = books (db self)
     \<and> movies (db (snd (get_active_simulations env self uid))) = movies (db self)
     \<and> games (db (snd (get_active_simulations env self uid))) = games (db self)
     \<and> (\<forall>sim_id sim_data.
          map_of (active_simulations self) sim_id = Some sim_data
          \<and> sim_user_id sim_data \<noteq> uid \<longrightarrow>
          map_of (active_simulations (snd (get_active_simulations env self uid))) sim_id
            = Some sim_data)"
proof -
  have wf: "wf_service self" using reach by (rule reachable_wf)
  have d: "distinct (map fst (active_simulations self))" using wf by (simp add: wf_service_def)
  have inv: "\<forall>(sim_id, sim_data) \<in> set (active_simulations self).
           \<exists>sim. map_of (active_simulations self) sim_id = Some sim
               \<and> sim_start_time sim = sim_start_time sim_data
               \<and> sim_total_time sim = sim_total_time sim_data"
    using d by auto
  have run: "get_active_simulations env self uid
           = (Inr (map (summary_of env) (owned uid (active_simulations self))),
              fold (poll env) (owned uid (active_simulations self)) self)"
    unfolding get_active_simulations_def using active_loop_fold [OF wf inv, of env uid "[]"]
    by simp
  have ids: "map summary_simulation_id (map (summary_of env) (owned uid (active_simulations self)))
         = map fst (filter (\<lambda>(sim_id, sim_data). sim_user_id sim_data = uid)
                      (active_simulations self))"
    by (simp add: owned_def summary_of_def comp_def)
  have lk: "map fst (user_interactions (db (fold (poll env) items self)))
         = map fst (user_interactions (db self))" for items
    by (rule fold_poll_invariant) (simp_all add: progress_ledger_keys)
  have ks: "map fst (active_simulations (fold (poll env) items self))
         = map fst (active_simulations self)" for items
    by (rule fold_poll_invariant) (simp_all add: progress_keys)
  have bk: "books (db (fold (poll env) items self)) = books (db self)" for items
    by (rule fold_poll_invariant) (simp_all add: progress_tables)
  have mv: "movies (db (fold (poll env) items self)) = movies (db self)" for items
    by (rule fold_poll_invariant) (simp_all add: progress_tables)
  have gm: "games (db (fold (poll env) items self)) = games (db self)" for items
    by (rule fold_poll_invariant) (simp_all add: progress_tables)
  have others: "map_of (active_simulations (fold (poll env) (owned uid (active_simulations self)) self))
                  sim_id = Some sim_data"
    if l: "map_of (active_simulations self) sim_id = Some sim_data"
      and o: "sim_user_id sim_data \<noteq> uid" for sim_id sim_data
  proof -
    have "sim_id \<notin> fst ` set (owned uid (active_simulations self))"
    proof
      assume "sim_id \<in> fst ` set (owned uid (active_simulations self))"
      then obtain s2 where m: "(sim_id, s2) \<in> set (active_simulations self)"
        and u2: "sim_user_id s2 = uid"
        by (auto simp: owned_def)
      have "map_of (active_simulations self) sim_id = Some s2" using d m by simp
      with l have "s2 = sim_data" by simp
      with u2 o show False by simp
    qed
    then show ?thesis using l by (simp add: fold_poll_other)
  qed
  show ?thesis
    using ids others by (simp add: run ks lk bk mv gm)
qed

theorem get_active_simulations_polls_witness:
  "reachable demo_started
   \<and> fst (get_active_simulations demo_env demo_started 7)
       = Inr [\<lparr>summary_simulation_id = ''7_book_1'', summary_content_title = ''Dune'',
               summary_content_type = ''book'', summary_progress = 50,
               summary_start_time = 1001\<rparr>]
   \<and> fst (get_active_simulations demo_env demo_started 8) = Inr []
   \<and> map fst (active_simulations (snd (get_active_simulations demo_env demo_started 7)))
       = [''7_book_1'']"
proof -
  have o7: "owned 7 (active_simulations demo_started) = [(''7_book_1'', demo_simulation)]"
    by (simp add: owned_def demo_started_eq demo_simulation_def)
  have o8: "owned 8 (active_simulations demo_started) = []"
    by (simp add: owned_def demo_started_eq demo_simulation_def)
  have su: "summary_of demo_env (''7_book_1'', demo_simulation)
      = \<lparr>summary_simulation_id = ''7_book_1'', summary_content_title = ''Dune'',
         summary_content_type = ''book'', summary_progress = 50,
         summary_start_time = 1001\<rparr>"
    by (simp add: summary_of_def demo_env_def demo_progress_50) (simp add: demo_simulation_def)
  have m: "map fst (active_simulations demo_started) = [''7_book_1'']"
    by (simp add: demo_started_eq)
  from get_active_simulations_polls [OF demo_reachable, of demo_env 7]
  have r7: "get_active_simulations demo_env demo_started 7
           = (Inr (map (summary_of demo_env) (owned 7 (active_simulations demo_started))),
              fold (poll demo_env) (owned 7 (active_simulations demo_started)) demo_started)"
    and k7: "map fst (active_simulations (snd (get_active_simulations demo_env demo_started 7)))
         = map fst (active_simulations demo_started)"
    by blast+
  from get_active_simulations_polls [OF demo_reachable, of demo_env 8]
  have r8: "get_active_simulations demo_env demo_started 8
           = (Inr (map (summary_of demo_env) (owned 8 (active_simulations demo_started))),
              fold (poll demo_env) (owned 8 (active_simulations demo_started)) demo_started)"
    by blast
  have f7: "fst (get_active_simulations demo_env demo_started 7)
       = Inr [\<lparr>summary_simulation_id = ''7_book_1'', summary_content_title = ''Dune'',
               summary_content_type = ''book'', summary_progress = 50,
               summary_start_time = 1001\<rparr>]"
    by (simp add: r7 o7 su)
  have f8: "fst (get_active_simulations demo_env demo_started 8) = Inr []"
    by (simp add: r8 o8)
  show ?thesis
    using demo_reachable f7 f8 k7 m by (simp only: simp_thms)
qed

text \<open>
  Claim C9 as stated fails: the handler is not read-only. Listing the simulations of user 7
  in the concrete system rewrites the ledger row of the running simulation (its
  \<open>progress_percent\<close> goes from 0 to 50) and appends an event to the simulation in the
  session map.
\<close>

theorem get_active_simulations_writes:
  "query_interaction (db demo_started) 1 = Some demo_interaction
   \<and> query_interaction (db (snd (get_active_simulations demo_env demo_started 7))) 1
       = Some (demo_interaction\<lparr>progress_percent := 50\<rparr>)
   \<and> demo_interaction\<lparr>progress_percent := 50\<rparr> \<noteq> demo_interaction
   \<and> map_of (active_simulations demo_started) ''7_book_1'' = Some demo_simulation
   \<and> map_of (active_simulations (snd (get_active_simulations demo_env demo_started 7)))
        ''7_book_1''
       = Some (demo_simulation\<lparr>sim_events := [Event ''book'' 3]\<rparr>)
   \<and> demo_simulation\<lparr>sim_events := [Event ''book'' 3]\<rparr> \<noteq> demo_simulation"
proof -
  have e: "py_int (total_seconds 21000000) = 21" by code_simp
  have g: "get_simulation_progress demo_started 21001001 (1 / 10) 3 ''7_book_1''
      = (Inr \<lparr>progress = 50, completed = False, event = Some (Event ''book'' 3),
              progress_content_title = ''Dune'', elapsed_time = 21\<rparr>,
         \<lparr>db = demo_db\<lparr>user_interactions :=
                  [(1, demo_interaction\<lparr>progress_percent := 50\<rparr>)]\<rparr>,
          active_simulations =
            [(''7_book_1'', demo_simulation\<lparr>sim_events := [Event ''book'' 3]\<rparr>)]\<rparr>)"
    by (simp add: get_simulation_progress_def demo_started_eq demo_progress_50
        query_interaction_def commit_interaction_def Let_def)
      (simp add: demo_simulation_def SIMULATION_EVENTS_def choice_def e
        commit_interaction_def Let_def)
  have a: "demo_interaction\<lparr>progress_percent := 50\<rparr> \<noteq> demo_interaction"
  proof
    assume "demo_interaction\<lparr>progress_percent := 50\<rparr> = demo_interaction"
    then have "progress_percent (demo_interaction\<lparr>progress_percent := 50\<rparr>)
                 = progress_percent demo_interaction" by simp
    then show False by (simp add: demo_interaction_def)
  qed
  have b: "demo_simulation\<lparr>sim_events := [Event ''book'' 3]\<rparr> \<noteq> demo_simulation"
  proof
    assume "demo_simulation\<lparr>sim_events := [Event ''book'' 3]\<rparr> = demo_simulation"
    then have "sim_events (demo_simulation\<lparr>sim_events := [Event ''book'' 3]\<rparr>)
                 = sim_events demo_simulation" by simp
    then show False by (simp add: demo_simulation_def)
  qed
  have u: "sim_user_id demo_simulation = 7" by (simp add: demo_simulation_def)
  have l: "get_active_simulations demo_env demo_started 7
      = (Inr [\<lparr>summary_simulation_id = ''7_book_1'',
               summary_content_title = sim_content_title demo_simulation,
               summary_content_type = sim_content_type demo_simulation,
               summary_progress = 50,
               summary_start_time = sim_start_time demo_simulation\<rparr>],
         \<lparr>db = demo_db\<lparr>user_interactions :=
                  [(1, demo_interaction\<lparr>progress_percent := 50\<rparr>)]\<rparr>,
          active_simulations =
            [(''7_book_1'', demo_simulation\<lparr>sim_events := [Event ''book'' 3]\<rparr>)]\<rparr>)"
    by (simp add: get_active_simulations_def demo_started_eq [THEN arg_cong, of active_simulations]
        u demo_env_def g)
  show ?thesis
    using a b demo_live by (simp add: l query_interaction_def) (simp add: demo_started_eq)
qed

end
